theory Spec2Isabelle
  imports Main
begin

section \<open>JavaScript strings\<close>

text \<open>
  A JavaScript string is a sequence of UTF-16 code units; \<open>length\<close>, \<open>trim\<close>,
  \<open>includes\<close> and the regular expressions of the sources (none has the \<open>u\<close> flag)
  all work on code units. Cyrillic letters are single code units (U+0410 to U+044F).
\<close>

type_synonym jsstring = "nat list"

definition asc :: "string \<Rightarrow> jsstring" where
  "asc s = map of_char s"

definition isLineTerminator :: "nat \<Rightarrow> bool" where
  "isLineTerminator c \<longleftrightarrow> c = 10 \<or> c = 13 \<or> c = 0x2028 \<or> c = 0x2029"

text \<open>
  The class \<open>\s\<close> and the characters removed by \<open>String.prototype.trim\<close>:
  ECMAScript's WhiteSpace and LineTerminator productions.
\<close>

definition isWhiteSpace :: "nat \<Rightarrow> bool" where
  "isWhiteSpace c \<longleftrightarrow>
     c = 9 \<or> c = 11 \<or> c = 12 \<or> c = 32 \<or> c = 0xA0 \<or> c = 0x1680
     \<or> (0x2000 \<le> c \<and> c \<le> 0x200A) \<or> c = 0x202F \<or> c = 0x205F \<or> c = 0x3000
     \<or> c = 0xFEFF \<or> isLineTerminator c"

definition isDigit :: "nat \<Rightarrow> bool" where
  "isDigit c \<longleftrightarrow> 48 \<le> c \<and> c \<le> 57"

text \<open>The class \<open>\w\<close> that decides \<open>\b\<close>: ASCII letters, digits and the underscore.\<close>

definition isWordChar :: "nat \<Rightarrow> bool" where
  "isWordChar c \<longleftrightarrow>
     isDigit c \<or> (65 \<le> c \<and> c \<le> 90) \<or> (97 \<le> c \<and> c \<le> 122) \<or> c = 95"

definition trim :: "jsstring \<Rightarrow> jsstring" where
  "trim s = rev (dropWhile isWhiteSpace (rev (dropWhile isWhiteSpace s)))"

definition startsWith :: "jsstring \<Rightarrow> jsstring \<Rightarrow> bool" where
  "startsWith s p \<longleftrightarrow> take (length p) s = p"

definition endsWith :: "jsstring \<Rightarrow> jsstring \<Rightarrow> bool" where
  "endsWith s p \<longleftrightarrow> startsWith (rev s) (rev p)"

fun includes_js :: "jsstring \<Rightarrow> jsstring \<Rightarrow> bool" where
  "includes_js [] p = (p = [])"
| "includes_js (c # cs) p = (startsWith (c # cs) p \<or> includes_js cs p)"

text \<open>\<open>Array.prototype.join\<close> with a separator.\<close>

fun joinWith :: "jsstring \<Rightarrow> jsstring list \<Rightarrow> jsstring" where
  "joinWith sep [] = []"
| "joinWith sep [x] = x"
| "joinWith sep (x # y # ys) = x @ sep @ joinWith sep (y # ys)"

text \<open>
  \<open>text.split(/\r?\n/)\<close>: a separator is a line feed, together with the carriage return
  right before it when there is one. The result always has at least one element.
\<close>

fun splitLines :: "jsstring \<Rightarrow> jsstring list" where
  "splitLines [] = [[]]"
| "splitLines (c # cs) =
     (if c = 10 then [] # splitLines cs
      else if c = 13 \<and> cs \<noteq> [] \<and> hd cs = 10 then [] # splitLines (tl cs)
      else (case splitLines cs of [] \<Rightarrow> [[c]] | l # ls \<Rightarrow> (c # l) # ls))"

text \<open>
  \<open>s.replace(/\n{3,}/g, '\n\n')\<close>: every maximal run of three or more line feeds becomes
  exactly two; shorter runs stay. The scan carries the length of the run of line feeds
  it is in.
\<close>

definition emitNewlines :: "nat \<Rightarrow> jsstring" where
  "emitNewlines n = (if 3 \<le> n then [10, 10] else replicate n 10)"

fun collapseRun :: "nat \<Rightarrow> jsstring \<Rightarrow> jsstring" where
  "collapseRun n [] = emitNewlines n"
| "collapseRun n (c # cs) =
     (if c = 10 then collapseRun (Suc n) cs
      else emitNewlines n @ c # collapseRun 0 cs)"

definition collapseNewlines :: "jsstring \<Rightarrow> jsstring" where
  "collapseNewlines s = collapseRun 0 s"

section \<open>The patterns of the parser\<close>

definition kwStatya :: jsstring where
  "kwStatya = [0x421, 0x442, 0x430, 0x442, 0x44C, 0x44F]"

definition kwPrilozhenie :: jsstring where
  "kwPrilozhenie = [0x41F, 0x440, 0x438, 0x43B, 0x43E, 0x436, 0x435, 0x43D, 0x438, 0x435]"

definition kwGlava :: jsstring where
  "kwGlava = [0x413, 0x43B, 0x430, 0x432, 0x430]"

definition kwRazdel :: jsstring where
  "kwRazdel = [0x420, 0x430, 0x437, 0x434, 0x435, 0x43B]"

definition kwChast :: jsstring where
  "kwChast = [0x427, 0x430, 0x441, 0x442, 0x44C]"

definition kwPodrazdel :: jsstring where
  "kwPodrazdel = [0x41F, 0x43E, 0x434, 0x440, 0x430, 0x437, 0x434, 0x435, 0x43B]"

text \<open>
  The \<open>i\<close> flag compares canonicalised code units: a code unit is replaced by its
  upper-case form when that is a single code unit, except that a non-ASCII code unit is
  never mapped into ASCII. The table covers ASCII, the Cyrillic block and the Cyrillic
  Extended-C letters whose upper-case form is a basic Cyrillic capital: every code unit
  that can be equal, after canonicalisation, to a letter of the patterns below.
\<close>

definition canonicalize :: "nat \<Rightarrow> nat" where
  "canonicalize c =
     (if 97 \<le> c \<and> c \<le> 122 then c - 32
      else if 0x430 \<le> c \<and> c \<le> 0x44F then c - 0x20
      else if 0x450 \<le> c \<and> c \<le> 0x45F then c - 0x50
      else if c = 0x1C80 then 0x412
      else if c = 0x1C81 then 0x414
      else if c = 0x1C82 then 0x41E
      else if c = 0x1C83 then 0x421
      else if c = 0x1C84 \<or> c = 0x1C85 then 0x422
      else if c = 0x1C86 then 0x42A
      else c)"

definition startsWithCI :: "jsstring \<Rightarrow> jsstring \<Rightarrow> bool" where
  "startsWithCI s p \<longleftrightarrow>
     length p \<le> length s \<and> map canonicalize (take (length p) s) = map canonicalize p"

text \<open>
  \<open>\b\<close> between the text consumed so far and the text still to read: exactly one of
  the two neighbouring code units is a word character (none counts as a non-word one).
\<close>

definition wordBoundary :: "jsstring \<Rightarrow> jsstring \<Rightarrow> bool" where
  "wordBoundary consumed remaining \<longleftrightarrow>
     (consumed \<noteq> [] \<and> isWordChar (last consumed))
       \<noteq> (remaining \<noteq> [] \<and> isWordChar (hd remaining))"

text \<open>The group \<open>(.*)\<close>: the dot stops at a line terminator.\<close>

definition captureRest :: "jsstring \<Rightarrow> jsstring" where
  "captureRest s = takeWhile (\<lambda>c. \<not> isLineTerminator c) s"

text \<open>
  The common head \<open>^\s*<Statya>\s+\d+\<close> of both article patterns, with the digits
  taken greedily. Giving back white space or digits never helps the rest of either
  pattern, because what follows would then have to start with the character given back.
  The result is the digit run and the text after it.
\<close>

definition articleHead :: "jsstring \<Rightarrow> (jsstring \<times> jsstring) option" where
  "articleHead line =
     (let s1 = dropWhile isWhiteSpace line in
      if \<not> startsWith s1 kwStatya then None
      else
        let s2 = drop (length kwStatya) s1 in
        if s2 = [] then None
        else if \<not> isWhiteSpace (hd s2) then None
        else
          let s3 = dropWhile isWhiteSpace s2; d1 = takeWhile isDigit s3 in
          if d1 = [] then None else Some (d1, dropWhile isDigit s3))"

text \<open>
  \<open>ARTICLE_PATTERN = /^\s*<Statya>\s+(\d+(?:\.\d+)?)\.\s*(.*)/\<close>. The optional group is
  tried first; when the period the pattern needs after it is not there, the group is
  given up and that period is the one right after the first digit run. The result is
  the pair of the two capture groups.
\<close>

definition matchArticlePattern :: "jsstring \<Rightarrow> (jsstring \<times> jsstring) option" where
  "matchArticlePattern line =
     (case articleHead line of
        None \<Rightarrow> None
      | Some (d1, r1) \<Rightarrow>
          (case r1 of
             [] \<Rightarrow> None
           | c # r2 \<Rightarrow>
               if c \<noteq> 46 then None
               else
                 let d2 = takeWhile isDigit r2; r3 = dropWhile isDigit r2 in
                 if d2 \<noteq> [] \<and> r3 \<noteq> [] \<and> hd r3 = 46
                 then Some (d1 @ [46] @ d2, captureRest (dropWhile isWhiteSpace (tl r3)))
                 else Some (d1, captureRest (dropWhile isWhiteSpace r2))))"

text \<open>
  \<open>ARTICLE_PATTERN_ALT = /^\s*<Statya>\s+(\d+(?:\.\d+)?)\b[\.\s]*(.*)/\<close>. The word
  boundary is tested after the optional group when the group matches, and after the
  first digit run otherwise.
\<close>

definition matchArticlePatternAlt :: "jsstring \<Rightarrow> (jsstring \<times> jsstring) option" where
  "matchArticlePatternAlt line =
     (case articleHead line of
        None \<Rightarrow> None
      | Some (d1, r1) \<Rightarrow>
          let r2 = tl r1; d2 = takeWhile isDigit r2; r3 = dropWhile isDigit r2;
              skip = dropWhile (\<lambda>c. c = 46 \<or> isWhiteSpace c)
          in
          if r1 \<noteq> [] \<and> hd r1 = 46 \<and> d2 \<noteq> [] \<and> wordBoundary d2 r3
          then Some (d1 @ [46] @ d2, captureRest (skip r3))
          else if wordBoundary d1 r1 then Some (d1, captureRest (skip r1))
          else None)"

text \<open>\<open>line.match(ARTICLE_PATTERN) || line.match(ARTICLE_PATTERN_ALT)\<close>\<close>

definition articleMatch :: "jsstring \<Rightarrow> (jsstring \<times> jsstring) option" where
  "articleMatch line =
     (case matchArticlePattern line of
        Some m \<Rightarrow> Some m
      | None \<Rightarrow> matchArticlePatternAlt line)"

text \<open>\<open>APPENDIX_PATTERN = /^\s*<Prilozhenie>\b/i\<close>\<close>

definition testAppendix :: "jsstring \<Rightarrow> bool" where
  "testAppendix line =
     (let s1 = dropWhile isWhiteSpace line; n = length kwPrilozhenie in
      startsWithCI s1 kwPrilozhenie \<and> wordBoundary (take n s1) (drop n s1))"

text \<open>
  \<open>CHAPTER_PATTERN = /^\s*(<Glava>|<Razdel>|<Chast>|<Podrazdel>)\s+[\dIVXLCDM]+/i\<close>.
  The four keywords start with different letters, so at most one alternative applies.
\<close>

definition isChapterNumeral :: "nat \<Rightarrow> bool" where
  "isChapterNumeral c \<longleftrightarrow> isDigit c \<or> canonicalize c \<in> set (asc ''IVXLCDM'')"

definition chapterTail :: "jsstring \<Rightarrow> bool" where
  "chapterTail s \<longleftrightarrow>
     s \<noteq> [] \<and> isWhiteSpace (hd s)
     \<and> (let t = dropWhile isWhiteSpace s in t \<noteq> [] \<and> isChapterNumeral (hd t))"

definition testChapter :: "jsstring \<Rightarrow> bool" where
  "testChapter line =
     (let s1 = dropWhile isWhiteSpace line in
      (startsWithCI s1 kwGlava \<and> chapterTail (drop (length kwGlava) s1))
      \<or> (startsWithCI s1 kwRazdel \<and> chapterTail (drop (length kwRazdel) s1))
      \<or> (startsWithCI s1 kwChast \<and> chapterTail (drop (length kwChast) s1))
      \<or> (startsWithCI s1 kwPodrazdel \<and> chapterTail (drop (length kwPodrazdel) s1)))"

text \<open>\<open>/^\d+\.\s/\<close>, the test for an enumerated item at the start of trailing text.\<close>

definition looksEnumerated :: "jsstring \<Rightarrow> bool" where
  "looksEnumerated s =
     (let d = takeWhile isDigit s; r = dropWhile isDigit s in
      d \<noteq> [] \<and> r \<noteq> [] \<and> hd r = 46 \<and> tl r \<noteq> [] \<and> isWhiteSpace (hd (tl r)))"

text \<open>\<open>/^\d+[\.\)]/\<close>\<close>

definition startsNumbered :: "jsstring \<Rightarrow> bool" where
  "startsNumbered s =
     (let d = takeWhile isDigit s; r = dropWhile isDigit s in
      d \<noteq> [] \<and> r \<noteq> [] \<and> (hd r = 46 \<or> hd r = 41))"

section \<open>The plain text parser\<close>

record ParsedProvision =
  article :: jsstring
  title :: jsstring
  content :: jsstring
  provision_ref :: jsstring
  order_index :: nat

text \<open>The local variables of \<open>parseRussianText\<close> that its loop and \<open>flushArticle\<close> share.\<close>

record parser_state =
  provisions :: "ParsedProvision list"
  currentArticleNum :: jsstring
  currentArticleTitle :: jsstring
  currentContent :: "jsstring list"
  orderIndex :: nat
  inAppendix :: bool

definition initialState :: parser_state where
  "initialState =
     \<lparr>provisions = [], currentArticleNum = [], currentArticleTitle = [],
      currentContent = [], orderIndex = 0, inAppendix = False\<rparr>"

definition flushContent :: "jsstring list \<Rightarrow> jsstring" where
  "flushContent ls = trim (collapseNewlines (joinWith [10] ls))"

definition flushArticle :: "parser_state \<Rightarrow> parser_state" where
  "flushArticle st =
     (let st1 =
        (if currentArticleNum st \<noteq> [] \<and> currentContent st \<noteq> [] then
           (let c = flushContent (currentContent st) in
            if 0 < length c then
              st\<lparr>provisions := provisions st @
                   [\<lparr>article = currentArticleNum st, title = currentArticleTitle st,
                     content = c, provision_ref = currentArticleNum st,
                     order_index = orderIndex st\<rparr>],
                 orderIndex := orderIndex st + 1\<rparr>
            else st)
         else st)
      in st1\<lparr>currentArticleNum := [], currentArticleTitle := [], currentContent := []\<rparr>)"

text \<open>
  The article-start branch: flush, take the number, and file the rest of the line as the
  title or as the first body line.
\<close>

definition startArticle :: "parser_state \<Rightarrow> jsstring \<Rightarrow> jsstring \<Rightarrow> parser_state" where
  "startArticle st num rest =
     (let st1 = (flushArticle st)\<lparr>currentArticleNum := num\<rparr>;
          restOfLine = trim rest
      in
      if restOfLine \<noteq> [] then
        (if length restOfLine < 200 \<and> \<not> looksEnumerated restOfLine
         then st1\<lparr>currentArticleTitle := restOfLine\<rparr>
         else st1\<lparr>currentContent := currentContent st1 @ [restOfLine]\<rparr>)
      else st1)"

text \<open>
  The last branch of the loop body: a line inside an article. The source tells a
  possible continuation of the title from body text and then appends the line in both
  cases.
\<close>

definition addContentLine :: "parser_state \<Rightarrow> jsstring \<Rightarrow> parser_state" where
  "addContentLine st line =
     (if currentArticleNum st \<noteq> [] then
        (if currentArticleTitle st \<noteq> [] \<and> length (currentContent st) = 0
            \<and> length line < 200 then
           (let looksLikeBody =
                  (startsNumbered line \<or> startsWith line (asc ''('') \<or> 150 < length line)
            in
            if \<not> looksLikeBody \<and> \<not> endsWith (currentArticleTitle st) (asc ''.'')
               \<and> \<not> endsWith (currentArticleTitle st) (asc '':'')
            then st\<lparr>currentContent := currentContent st @ [line]\<rparr>
            else st\<lparr>currentContent := currentContent st @ [line]\<rparr>)
         else st\<lparr>currentContent := currentContent st @ [line]\<rparr>)
      else st)"

text \<open>One iteration of \<open>for (const rawLine of lines)\<close>.\<close>

definition processLine :: "parser_state \<Rightarrow> jsstring \<Rightarrow> parser_state" where
  "processLine st rawLine =
     (let line = trim rawLine in
      if length line = 0 then
        (if currentArticleNum st \<noteq> [] \<and> 0 < length (currentContent st)
         then st\<lparr>currentContent := currentContent st @ [[]]\<rparr>
         else st)
      else if testAppendix line then flushArticle (st\<lparr>inAppendix := True\<rparr>)
      else if inAppendix st \<and> articleMatch line = None then st
      else
        (let st1 = (if inAppendix st then st\<lparr>inAppendix := False\<rparr> else st) in
         case articleMatch line of
           Some (num, rest) \<Rightarrow> startArticle st1 num rest
         | None \<Rightarrow> if testChapter line then st1 else addContentLine st1 line))"

text \<open>The loop over the lines and the flush of the last article.\<close>

definition scanText :: "jsstring \<Rightarrow> ParsedProvision list" where
  "scanText text = provisions (flushArticle (foldl processLine initialState (splitLines text)))"

text \<open>
  The deduplication loop. \<open>seen\<close> maps an article number to its index in \<open>deduped\<close>.
  Reading \<open>deduped[existing]\<close> outside the array would give \<open>undefined\<close>, and the
  update of its \<open>content\<close> would then raise a TypeError.
\<close>

datatype js_error = TypeError | Error jsstring

fun dedupe :: "ParsedProvision list \<Rightarrow> (jsstring \<rightharpoonup> nat) \<Rightarrow> ParsedProvision list
    \<Rightarrow> js_error + ParsedProvision list" where
  "dedupe [] seen deduped = Inr deduped"
| "dedupe (prov # rest) seen deduped =
     (case seen (article prov) of
        Some existing \<Rightarrow>
          if existing < length deduped then
            dedupe rest seen
              (deduped[existing := (deduped ! existing)
                 \<lparr>content := content (deduped ! existing) @ [10, 10] @ content prov\<rparr>])
          else Inl TypeError
      | None \<Rightarrow> dedupe rest (seen(article prov \<mapsto> length deduped)) (deduped @ [prov]))"

text \<open>\<open>for (let i = 0; i < deduped.length; i++) deduped[i].order_index = i\<close>\<close>

fun reindex :: "nat \<Rightarrow> ParsedProvision list \<Rightarrow> ParsedProvision list" where
  "reindex i [] = []"
| "reindex i (p # ps) = p\<lparr>order_index := i\<rparr> # reindex (Suc i) ps"

definition parseRussianText :: "jsstring \<Rightarrow> js_error + ParsedProvision list" where
  "parseRussianText text =
     (case dedupe (scanText text) Map.empty [] of
        Inl e \<Rightarrow> Inl e
      | Inr deduped \<Rightarrow> Inr (reindex 0 deduped))"

section \<open>The rate-limited fetcher\<close>

text \<open>
  What one call of \<open>fetch\<close> and the reading of the body can give: a response (its
  status, its \<open>content-type\<close> header when there is one, and the bytes of its body or
  the failure of reading them), or a rejection (connection failure, abort).
\<close>

datatype body_read = BodyBytes "nat list" | BodyFails jsstring

datatype attempt_outcome =
    Responded nat "jsstring option" body_read
  | Rejected jsstring

text \<open>
  The disk operations of the pipeline that can throw, for the oracle that says which
  of them do: creating the data directory and the seed directory, writing
  \<open>census.json\<close> in the census phase, writing the EU-reference file, writing the seed
  file of a law, and, at the end of the ingestion phase, reading \<open>census.json\<close> back
  (\<open>readFileSync\<close> and \<open>JSON.parse\<close> together: refused, or text that does not parse)
  and writing it a second time.
\<close>

datatype disk_path =
    DataDir | SeedDir | CensusPath | EuRefPath | SeedPath jsstring
  | CensusRead | CensusRewrite

text \<open>
  The environment of a run, fixed for its duration: what the server answers to the
  \<open>k\<close>-th request sent since the process started and after how many milliseconds; the
  two text decoders; the DOM queries of the HTML library; the rendering of dates and
  percentages; and which disk operations throw (with what message).
\<close>

record environment =
  server :: "nat \<Rightarrow> jsstring \<Rightarrow> attempt_outcome"
  latency :: "nat \<Rightarrow> nat"
  decode1251 :: "nat list \<Rightarrow> jsstring"
  decodeText :: "nat list \<Rightarrow> jsstring"
  domText :: "jsstring \<Rightarrow> jsstring \<Rightarrow> jsstring option"
  domFirstText :: "jsstring \<Rightarrow> jsstring \<Rightarrow> jsstring"
  isoDate :: "nat \<Rightarrow> jsstring"
  isoDateTime :: "nat \<Rightarrow> jsstring"
  percent1 :: "nat \<Rightarrow> nat \<Rightarrow> jsstring"
  diskError :: "disk_path \<Rightarrow> jsstring option"

text \<open>
  The state the fetcher works on: the clock (\<open>Date.now()\<close>, in milliseconds), the
  module variable \<open>lastRequestTime\<close>, and the log of the requests sent (send time and
  URL), which is how the model makes network calls observable.
\<close>

record net_state =
  now :: nat
  lastRequestTime :: nat
  sent :: "(nat \<times> jsstring) list"

definition MIN_DELAY_MS :: nat where
  "MIN_DELAY_MS = 1000"

definition REQUEST_TIMEOUT_MS :: nat where
  "REQUEST_TIMEOUT_MS = 60000"

text \<open>\<open>await new Promise(resolve => setTimeout(resolve, ms))\<close>: the clock moves on by \<open>ms\<close>.\<close>

definition sleep :: "nat \<Rightarrow> 'a net_state_scheme \<Rightarrow> 'a net_state_scheme" where
  "sleep ms s = s\<lparr>now := now s + ms\<rparr>"

definition rateLimit :: "'a net_state_scheme \<Rightarrow> 'a net_state_scheme" where
  "rateLimit s =
     (let elapsed = int (now s) - int (lastRequestTime s);
          s1 = (if elapsed < int MIN_DELAY_MS
                then sleep (nat (int MIN_DELAY_MS - elapsed)) s else s)
      in s1\<lparr>lastRequestTime := now s1\<rparr>)"

record FetchResult =
  status :: nat
  body :: jsstring
  contentType :: jsstring

text \<open>
  One request: it is logged with its send time; the timer aborts it when the server
  has not answered within \<open>REQUEST_TIMEOUT_MS\<close>.
\<close>

definition sendRequest ::
    "environment \<Rightarrow> jsstring \<Rightarrow> 'a net_state_scheme \<Rightarrow> attempt_outcome \<times> 'a net_state_scheme" where
  "sendRequest env url s =
     (let k = length (sent s);
          s1 = s\<lparr>sent := sent s @ [(now s, url)]\<rparr>
      in if REQUEST_TIMEOUT_MS \<le> latency env k
         then (Rejected (asc ''This operation was aborted''), sleep REQUEST_TIMEOUT_MS s1)
         else (server env k url, sleep (latency env k) s1))"

text \<open>The part of the loop body after the retry test: decode the body and return.\<close>

definition readBody ::
    "environment \<Rightarrow> jsstring \<Rightarrow> nat \<Rightarrow> jsstring option \<Rightarrow> nat list \<Rightarrow> FetchResult" where
  "readBody env url st ctype bytes =
     (let contentType = (case ctype of None \<Rightarrow> [] | Some c \<Rightarrow> c);
          isPravo = includes_js url (asc ''pravo.gov.ru'');
          needsWin1251 = (isPravo \<or> includes_js contentType (asc ''windows-1251'')
                          \<or> includes_js contentType (asc ''cp1251''))
      in \<lparr>status = st,
          body = (if needsWin1251 then decode1251 env bytes else decodeText env bytes),
          contentType = contentType\<rparr>)"

text \<open>Decimal digits of a number, for \<open>${maxRetries}\<close> in the last error message.\<close>

fun decimal :: "nat \<Rightarrow> jsstring" where
  "decimal n = (if n < 10 then [48 + n] else decimal (n div 10) @ [48 + n mod 10])"

definition showInt :: "int \<Rightarrow> jsstring" where
  "showInt i = (if i < 0 then 45 # decimal (nat (- i)) else decimal (nat i))"

text \<open>
  The loop \<open>for (let attempt = 0; attempt <= maxRetries; attempt++)\<close>. A status 429 or
  5xx is retried only while \<open>attempt < maxRetries\<close>; on the last attempt the code goes
  on to read the body and returns the response. An exception (rejection, failed read of
  the body) is retried while \<open>attempt < maxRetries\<close> and rethrown on the last attempt.
\<close>

function fetchLoop ::
    "environment \<Rightarrow> jsstring \<Rightarrow> int \<Rightarrow> int \<Rightarrow> 'a net_state_scheme
     \<Rightarrow> (js_error + FetchResult) \<times> 'a net_state_scheme" where
  "fetchLoop env url maxRetries attempt s =
     (if attempt \<le> maxRetries then
        (case sendRequest env url s of
           (Responded st ctype rd, s1) \<Rightarrow>
             if (st = 429 \<or> 500 \<le> st) \<and> attempt < maxRetries then
               fetchLoop env url maxRetries (attempt + 1)
                 (sleep (2 ^ nat (attempt + 1) * 1000) s1)
             else
               (case rd of
                  BodyBytes bytes \<Rightarrow> (Inr (readBody env url st ctype bytes), s1)
                | BodyFails msg \<Rightarrow>
                    if attempt < maxRetries then
                      fetchLoop env url maxRetries (attempt + 1)
                        (sleep (2 ^ nat (attempt + 1) * 2000) s1)
                    else (Inl (Error msg), s1))
         | (Rejected msg, s1) \<Rightarrow>
             if attempt < maxRetries then
               fetchLoop env url maxRetries (attempt + 1)
                 (sleep (2 ^ nat (attempt + 1) * 2000) s1)
             else (Inl (Error msg), s1))
      else
        (Inl (Error (asc ''Failed to fetch '' @ url @ asc '' after '' @ showInt maxRetries
                     @ asc '' retries'')), s))"
  by pat_completeness auto
termination
  by (relation "measure (\<lambda>(env, url, maxRetries, attempt, s). nat (maxRetries + 1 - attempt))")
    auto

definition fetchWithRateLimit ::
    "environment \<Rightarrow> jsstring \<Rightarrow> int \<Rightarrow> 'a net_state_scheme
     \<Rightarrow> (js_error + FetchResult) \<times> 'a net_state_scheme" where
  "fetchWithRateLimit env url maxRetries s = fetchLoop env url maxRetries 0 (rateLimit s)"

definition fetchPravoLawText ::
    "environment \<Rightarrow> jsstring \<Rightarrow> 'a net_state_scheme
     \<Rightarrow> (js_error + FetchResult) \<times> 'a net_state_scheme" where
  "fetchPravoLawText env nd_key s =
     fetchWithRateLimit env
       (asc ''http://pravo.gov.ru/proxy/ips/?savetext=&nd='' @ nd_key @ asc ''&page=all'') 3 s"

section \<open>The census and the ingestion pipeline\<close>

datatype LawType = constitution | code | federal_constitutional_law | federal_law

datatype LawStatus = in_force | amended | repealed

datatype CensusClassification = ingestable | ocr_needed | inaccessible | excluded

datatype EuType = directive | regulation

record EuReference =
  eu_document_id :: jsstring
  eu_type :: EuType
  eu_year :: nat
  eu_number :: nat
  eu_title :: jsstring
  eu_short_name :: jsstring
  reference_type :: jsstring
  is_primary :: bool
  eu_description :: jsstring

text \<open>
  \<open>CensusEntry\<close>. The fields \<open>id\<close>, \<open>title\<close>, \<open>status\<close> and \<open>identifier\<close> of the
  source are \<open>entry_id\<close>, \<open>entry_title\<close>, \<open>entry_status\<close> and \<open>law_identifier\<close> here;
  an optional field is an option.
\<close>

record CensusEntry =
  entry_id :: jsstring
  nd :: jsstring
  entry_title :: jsstring
  title_en :: jsstring
  law_identifier :: jsstring
  law_type :: LawType
  entry_status :: LawStatus
  effective_date :: jsstring
  publication_date :: "jsstring option"
  last_amended :: "jsstring option"
  classification :: CensusClassification
  description :: "jsstring option"
  source_url :: jsstring
  eu_references :: "EuReference list option"

definition showLawType :: "LawType \<Rightarrow> jsstring" where
  "showLawType t =
     (case t of constitution \<Rightarrow> asc ''constitution'' | code \<Rightarrow> asc ''code''
      | federal_constitutional_law \<Rightarrow> asc ''federal_constitutional_law''
      | federal_law \<Rightarrow> asc ''federal_law'')"

definition showLawStatus :: "LawStatus \<Rightarrow> jsstring" where
  "showLawStatus t =
     (case t of in_force \<Rightarrow> asc ''in_force'' | amended \<Rightarrow> asc ''amended''
      | repealed \<Rightarrow> asc ''repealed'')"

definition showClassification :: "CensusClassification \<Rightarrow> jsstring" where
  "showClassification c =
     (case c of ingestable \<Rightarrow> asc ''ingestable'' | ocr_needed \<Rightarrow> asc ''ocr_needed''
      | inaccessible \<Rightarrow> asc ''inaccessible'' | excluded \<Rightarrow> asc ''excluded'')"

text \<open>
  \<open>SeedLaw\<close> and \<open>SeedFile\<close>, with the fields \<open>ingestLaw\<close> sets. A \<open>SeedProvision\<close>
  built by the pipeline has exactly the fields of a \<open>ParsedProvision\<close>.
\<close>

record SeedLaw =
  seed_id :: jsstring
  seed_title :: jsstring
  seed_title_en :: jsstring
  seed_identifier :: jsstring
  seed_law_type :: jsstring
  seed_status :: jsstring
  seed_effective_date :: jsstring
  seed_source_url :: jsstring
  seed_last_amended :: "jsstring option"
  seed_last_updated :: jsstring
  seed_description :: "jsstring option"

type_synonym SeedProvision = ParsedProvision

record SeedFile =
  law :: SeedLaw
  seed_provisions :: "SeedProvision list"

record CensusResult =
  entry :: CensusEntry
  ingested :: bool
  provision_count :: nat
  error :: "jsstring option"

record EuReferenceSeed =
  ref_law_id :: jsstring
  ref_eu_directive :: "jsstring option"
  ref_eu_regulation :: "jsstring option"
  ref_reference_type :: jsstring

text \<open>The statistics of \<open>getCensusStats\<close>.\<close>

record CensusStats =
  stat_total :: nat
  stat_ingestable :: nat
  stat_ocr_needed :: nat
  stat_inaccessible :: nat
  stat_excluded :: nat
  stat_constitution :: nat
  stat_code :: nat
  stat_federal_constitutional_law :: nat
  stat_federal_law :: nat
  stat_in_force :: nat
  stat_amended :: nat
  stat_repealed :: nat
  stat_with_eu_references :: nat

definition countWhere :: "('a \<Rightarrow> bool) \<Rightarrow> 'a list \<Rightarrow> nat" where
  "countWhere P xs = length (filter P xs)"

definition getCensusStats :: "CensusEntry list \<Rightarrow> CensusStats" where
  "getCensusStats census =
     \<lparr>stat_total = length census,
      stat_ingestable = countWhere (\<lambda>e. classification e = ingestable) census,
      stat_ocr_needed = countWhere (\<lambda>e. classification e = ocr_needed) census,
      stat_inaccessible = countWhere (\<lambda>e. classification e = inaccessible) census,
      stat_excluded = countWhere (\<lambda>e. classification e = excluded) census,
      stat_constitution = countWhere (\<lambda>e. law_type e = constitution) census,
      stat_code = countWhere (\<lambda>e. law_type e = code) census,
      stat_federal_constitutional_law =
        countWhere (\<lambda>e. law_type e = federal_constitutional_law) census,
      stat_federal_law = countWhere (\<lambda>e. law_type e = federal_law) census,
      stat_in_force = countWhere (\<lambda>e. entry_status e = in_force) census,
      stat_amended = countWhere (\<lambda>e. entry_status e = amended) census,
      stat_repealed = countWhere (\<lambda>e. entry_status e = repealed) census,
      stat_with_eu_references =
        countWhere (\<lambda>e. case eu_references e of None \<Rightarrow> False | Some rs \<Rightarrow> 0 < length rs)
          census\<rparr>"

text \<open>The \<open>ingestion\<close> object that a finished run adds to \<open>census.json\<close>.\<close>

record IngestionStats =
  completed_at :: jsstring
  total_processed :: nat
  success_count :: nat
  fail_count :: nat
  total_provisions :: nat
  coverage_pct :: jsstring

text \<open>
  \<open>census.json\<close>. A row of \<open>laws\<close> is the census entry without the fields the source
  leaves out of it.
\<close>

record CensusJson =
  generated_at :: jsstring
  census_stats :: CensusStats
  laws :: "CensusEntry list"
  ingestion :: "IngestionStats option"

definition censusRow :: "CensusEntry \<Rightarrow> CensusEntry" where
  "censusRow e =
     e\<lparr>publication_date := None, last_amended := None, description := None,
       eu_references := None\<rparr>"

text \<open>
  What is on disk at a seed path: a file that \<open>JSON.parse\<close> rejects, or a seed file.
  Seed files are keyed by the entry's \<open>id\<close>, which stands for the path
  \<open>data/seed/<id>.json\<close>.
\<close>

datatype disk_seed = Corrupt | Doc SeedFile

record world = net_state +
  dataDirExists :: bool
  seedDirExists :: bool
  censusFile :: "CensusJson option"
  euRefFile :: "EuReferenceSeed list option"
  seedFiles :: "jsstring \<rightharpoonup> disk_seed"

text \<open>The command line: \<open>--census-only\<close>, \<open>--skip-fetch\<close>, \<open>--limit N\<close> (0 when absent).\<close>

record options =
  censusOnly :: bool
  skipFetch :: bool
  limit :: nat

subsection \<open>The HTML parser\<close>

definition titleSelectors :: "jsstring list" where
  "titleSelectors =
     [asc ''h1'', asc ''.docTitle'', asc ''.doc_title'', asc ''title'', asc ''.rasdel_name'']"

definition contentSelectors :: "jsstring list" where
  "contentSelectors =
     [asc ''#text'', asc ''.docBody'', asc ''.doc_body'', asc ''.dcontent'', asc ''#docBody'',
      asc ''table.doc'', asc ''.mainbody'', asc ''body'']"

text \<open>
  The two selector loops of \<open>parsePravoHtml\<close>. \<open>domFirstText env html sel\<close> is
  \<open>$(sel).first().text()\<close> and \<open>domText env html sel\<close> is \<open>$(sel).text()\<close>, or
  \<open>None\<close> when the selection is empty.
\<close>

fun pickTitle :: "environment \<Rightarrow> jsstring \<Rightarrow> jsstring list \<Rightarrow> jsstring" where
  "pickTitle env html [] = []"
| "pickTitle env html (sel # sels) =
     (let t = trim (domFirstText env html sel) in
      if t \<noteq> [] \<and> 5 < length t \<and> length t < 500 then t else pickTitle env html sels)"

fun pickContent :: "environment \<Rightarrow> jsstring \<Rightarrow> jsstring list \<Rightarrow> jsstring" where
  "pickContent env html [] = []"
| "pickContent env html (sel # sels) =
     (case domText env html sel of
        None \<Rightarrow> pickContent env html sels
      | Some t \<Rightarrow> if 200 < length (trim t) then t else pickContent env html sels)"

record ParsedLaw =
  parsed_title :: jsstring
  parsed_provisions :: "ParsedProvision list"

definition parsePravoHtml :: "environment \<Rightarrow> jsstring \<Rightarrow> js_error + ParsedLaw" where
  "parsePravoHtml env html =
     (let picked = pickContent env html contentSelectors;
          rawText = (if picked = []
                     then (case domText env html (asc ''body'') of None \<Rightarrow> [] | Some t \<Rightarrow> t)
                     else picked)
      in case parseRussianText rawText of
           Inl e \<Rightarrow> Inl e
         | Inr ps \<Rightarrow>
             Inr \<lparr>parsed_title = pickTitle env html titleSelectors, parsed_provisions = ps\<rparr>)"

subsection \<open>The census phase\<close>

definition requiredLaws :: "jsstring list" where
  "requiredLaws =
     [asc ''constitution-rf'', asc ''uk-rf'', asc ''gk-rf-1'', asc ''fz-152-2006'',
      asc ''fz-149-2006'', asc ''fz-187-2017'']"

definition allPresent :: "CensusEntry list \<Rightarrow> bool" where
  "allPresent census \<longleftrightarrow>
     list_all (\<lambda>req. find (\<lambda>e. entry_id e = req) census \<noteq> None) requiredLaws"

text \<open>How a function of the pipeline ends: it returns, it throws, or it ends the process.\<close>

datatype 'a ending = Returns 'a | Throws js_error | ProcessExit nat

text \<open>A disk operation at a path: it throws when the environment says so.\<close>

definition mkdirSync :: "environment \<Rightarrow> disk_path \<Rightarrow> world \<Rightarrow> unit ending \<times> world" where
  "mkdirSync env p w =
     (case diskError env p of
        Some msg \<Rightarrow> (Throws (Error msg), w)
      | None \<Rightarrow>
          (Returns (),
           (case p of
              DataDir \<Rightarrow> w\<lparr>dataDirExists := True\<rparr>
            | SeedDir \<Rightarrow> w\<lparr>dataDirExists := True, seedDirExists := True\<rparr>
            | _ \<Rightarrow> w)))"

definition runCensus ::
    "environment \<Rightarrow> CensusEntry list \<Rightarrow> world \<Rightarrow> CensusEntry list ending \<times> world" where
  "runCensus env census w =
     (let stats = getCensusStats census in
      if \<not> allPresent census then (ProcessExit 1, w)
      else
        (case (if \<not> dataDirExists w then mkdirSync env DataDir w else (Returns (), w)) of
           (Throws e, w1) \<Rightarrow> (Throws e, w1)
         | (ProcessExit c, w1) \<Rightarrow> (ProcessExit c, w1)
         | (Returns u, w1) \<Rightarrow>
             (case diskError env CensusPath of
                Some msg \<Rightarrow> (Throws (Error msg), w1)
              | None \<Rightarrow>
                  (Returns census,
                   w1\<lparr>censusFile :=
                        Some \<lparr>generated_at = isoDateTime env (now w1), census_stats = stats,
                              laws = map censusRow census, ingestion = None\<rparr>\<rparr>))))"

subsection \<open>The ingestion phase\<close>

text \<open>
  The resumability test of \<open>ingestLaw\<close>: the number of provisions of the seed file
  that exists and parses, when it is positive.
\<close>

definition existingProvisions :: "world \<Rightarrow> jsstring \<Rightarrow> nat option" where
  "existingProvisions w ident =
     (case seedFiles w ident of
        None \<Rightarrow> None
      | Some Corrupt \<Rightarrow> None
      | Some (Doc existing) \<Rightarrow>
          if 0 < length (seed_provisions existing)
          then Some (length (seed_provisions existing)) else None)"

text \<open>
  The \<open>try\<close> block of \<open>ingestLaw\<close>: fetch the text rendering and parse it. Whatever
  is thrown inside is caught and logged, and leaves no provisions.
\<close>

definition fetchAndParse ::
    "environment \<Rightarrow> CensusEntry \<Rightarrow> world \<Rightarrow> SeedProvision list \<times> world" where
  "fetchAndParse env e w =
     (case fetchPravoLawText env (nd e) w of
        (Inl err, w1) \<Rightarrow> ([], w1)
      | (Inr result, w1) \<Rightarrow>
          if status result = 200 \<and> 100 < length (body result) then
            (if includes_js (body result) (asc ''<html'')
                \<or> includes_js (body result) (asc ''<HTML'')
             then (case parsePravoHtml env (body result) of
                     Inl err \<Rightarrow> ([], w1)
                   | Inr parsed \<Rightarrow> (parsed_provisions parsed, w1))
             else (case parseRussianText (body result) of
                     Inl err \<Rightarrow> ([], w1)
                   | Inr ps \<Rightarrow> (ps, w1)))
          else ([], w1))"

text \<open>
  The lines from \<open>let provisions = []\<close> to the end of \<open>if (!skipFetch)\<close>: what has
  been extracted when the placeholder test is reached.
\<close>

definition extractProvisions ::
    "environment \<Rightarrow> options \<Rightarrow> CensusEntry \<Rightarrow> world \<Rightarrow> SeedProvision list \<times> world" where
  "extractProvisions env opts e w =
     (if \<not> skipFetch opts then fetchAndParse env e w else ([], w))"

definition placeholderTail :: jsstring where
  "placeholderTail =
     [10, 10] @
     [0x424, 0x435, 0x434, 0x435, 0x440, 0x430, 0x43B, 0x44C, 0x43D, 0x43E, 0x435,
      0x20, 0x437, 0x430, 0x43A, 0x43E, 0x43D, 0x43E, 0x434, 0x430, 0x442, 0x435,
      0x43B, 0x44C, 0x441, 0x442, 0x432, 0x43E, 0x20, 0x420, 0x43E, 0x441, 0x441,
      0x438, 0x439, 0x441, 0x43A, 0x43E, 0x439, 0x20, 0x424, 0x435, 0x434, 0x435,
      0x440, 0x430, 0x446, 0x438, 0x438, 0x2E]
     @ [10] @
     [0x418, 0x441, 0x442, 0x43E, 0x447, 0x43D, 0x438, 0x43A, 0x3A, 0x20]"

text \<open>
  The placeholder provision: \<open>entry.description || entry.title\<close>, a fixed note and the
  source URL.
\<close>

definition placeholder :: "CensusEntry \<Rightarrow> SeedProvision" where
  "placeholder e =
     \<lparr>article = asc ''0'', title = entry_title e,
      content =
        (case description e of
           None \<Rightarrow> entry_title e
         | Some d \<Rightarrow> if d = [] then entry_title e else d)
        @ placeholderTail @ source_url e,
      provision_ref = asc ''0'', order_index = 0\<rparr>"

definition buildSeed :: "environment \<Rightarrow> CensusEntry \<Rightarrow> SeedProvision list \<Rightarrow> world \<Rightarrow> SeedFile" where
  "buildSeed env e ps w =
     \<lparr>law =
        \<lparr>seed_id = entry_id e, seed_title = entry_title e, seed_title_en = title_en e,
         seed_identifier = law_identifier e, seed_law_type = showLawType (law_type e),
         seed_status = showLawStatus (entry_status e),
         seed_effective_date = effective_date e, seed_source_url = source_url e,
         seed_last_amended = last_amended e, seed_last_updated = isoDate env (now w),
         seed_description = description e\<rparr>,
      seed_provisions = ps\<rparr>"

definition ingestLaw ::
    "environment \<Rightarrow> options \<Rightarrow> CensusEntry \<Rightarrow> world \<Rightarrow> CensusResult ending \<times> world" where
  "ingestLaw env opts e w =
     (case existingProvisions w (entry_id e) of
        Some n \<Rightarrow>
          (Returns \<lparr>entry = e, ingested = True, provision_count = n, error = None\<rparr>, w)
      | None \<Rightarrow>
          if classification e \<noteq> ingestable then
            (Returns \<lparr>entry = e, ingested = False, provision_count = 0,
                      error = Some (asc ''Classification: ''
                                    @ showClassification (classification e))\<rparr>, w)
          else
            (let (extracted, w1) = extractProvisions env opts e w;
                 provs = (if length extracted = 0 then [placeholder e] else extracted);
                 seed = buildSeed env e provs w1
             in case diskError env (SeedPath (entry_id e)) of
                  Some msg \<Rightarrow> (Throws (Error msg), w1)
                | None \<Rightarrow>
                    (Returns \<lparr>entry = e, ingested = True, provision_count = length provs,
                              error = None\<rparr>,
                     w1\<lparr>seedFiles := (seedFiles w1)(entry_id e \<mapsto> Doc seed)\<rparr>)))"

text \<open>The counters and the result list of \<open>runIngestion\<close>.\<close>

record RunReport =
  results :: "CensusResult list"
  successCount :: nat
  failCount :: nat
  skipCount :: nat
  totalProvisions :: nat

definition emptyReport :: RunReport where
  "emptyReport =
     \<lparr>results = [], successCount = 0, failCount = 0, skipCount = 0, totalProvisions = 0\<rparr>"

definition errorMessage :: "js_error \<Rightarrow> jsstring" where
  "errorMessage err = (case err of Error msg \<Rightarrow> msg | TypeError \<Rightarrow> asc ''TypeError'')"

text \<open>
  One iteration of the loop over \<open>toProcess\<close>. A process exit inside \<open>ingestLaw\<close>
  does not occur (it has no \<open>process.exit\<close>); the case is there for the type.
\<close>

definition processEntry ::
    "environment \<Rightarrow> options \<Rightarrow> RunReport \<times> world \<Rightarrow> CensusEntry \<Rightarrow> RunReport \<times> world" where
  "processEntry env opts acc e =
     (let (r, w) = acc in
      case ingestLaw env opts e w of
        (Returns result, w1) \<Rightarrow>
          (if ingested result then
             r\<lparr>results := results r @ [result], successCount := successCount r + 1,
               totalProvisions := totalProvisions r + provision_count result\<rparr>
           else if (case error result of None \<Rightarrow> False
                    | Some msg \<Rightarrow> includes_js msg (asc ''already''))
           then r\<lparr>results := results r @ [result], skipCount := skipCount r + 1\<rparr>
           else r\<lparr>results := results r @ [result], failCount := failCount r + 1\<rparr>,
           w1)
      | (Throws err, w1) \<Rightarrow>
          (r\<lparr>results := results r
                  @ [\<lparr>entry = e, ingested = False, provision_count = 0,
                      error = Some (errorMessage err)\<rparr>],
             failCount := failCount r + 1\<rparr>,
           w1)
      | (ProcessExit c, w1) \<Rightarrow> (r, w1))"

definition toProcess :: "options \<Rightarrow> CensusEntry list \<Rightarrow> CensusEntry list" where
  "toProcess opts census =
     (let ingestables = filter (\<lambda>e. classification e = ingestable) census in
      if 0 < limit opts then take (limit opts) ingestables else ingestables)"

text \<open>\<open>writeEuReferences\<close>\<close>

definition euSeeds :: "CensusEntry list \<Rightarrow> EuReferenceSeed list" where
  "euSeeds census =
     concat (map (\<lambda>e. case eu_references e of
                         None \<Rightarrow> []
                       | Some rs \<Rightarrow>
                           map (\<lambda>r. \<lparr>ref_law_id = entry_id e,
                                      ref_eu_directive =
                                        (if eu_type r = directive then Some (eu_document_id r)
                                         else None),
                                      ref_eu_regulation =
                                        (if eu_type r = regulation then Some (eu_document_id r)
                                         else None),
                                      ref_reference_type = reference_type r\<rparr>) rs)
                 census)"

definition writeEuReferences ::
    "environment \<Rightarrow> CensusEntry list \<Rightarrow> world \<Rightarrow> unit ending \<times> world" where
  "writeEuReferences env census w =
     (let refs = euSeeds census in
      if 0 < length refs then
        (case diskError env EuRefPath of
           Some msg \<Rightarrow> (Throws (Error msg), w)
         | None \<Rightarrow> (Returns (), w\<lparr>euRefFile := Some refs\<rparr>))
      else (Returns (), w))"

text \<open>
  The failed laws that the summary prints: the results that are not ingested, each
  with its error (or \<open>unknown error\<close>), when some entry was not a success and the
  failure counter is positive.
\<close>

definition failedLaws :: "RunReport \<Rightarrow> nat \<Rightarrow> (jsstring \<times> jsstring) list" where
  "failedLaws r attempted =
     (if successCount r = attempted then []
      else if 0 < failCount r then
        map (\<lambda>x. (entry_id (entry x),
                   (case error x of None \<Rightarrow> asc ''unknown error''
                    | Some msg \<Rightarrow> if msg = [] then asc ''unknown error'' else msg)))
          (filter (\<lambda>x. \<not> ingested x) (results r))
      else [])"

text \<open>
  The ingestion phase: the seed directory, the loop over the entries to process (each
  call of \<open>ingestLaw\<close> inside its \<open>try\<close>), the EU-reference file, and the update of
  \<open>census.json\<close>. The update is outside every \<open>try\<close>: the file is read back and parsed
  (the oracle at \<open>CensusRead\<close> says whether that throws; a file that is not there
  throws in any case), then written again with the \<open>ingestion\<close> record (the oracle at
  \<open>CensusRewrite\<close>). Whatever throws here leaves the function as an exception.
\<close>

definition runIngestion ::
    "environment \<Rightarrow> options \<Rightarrow> CensusEntry list \<Rightarrow> world \<Rightarrow> RunReport ending \<times> world" where
  "runIngestion env opts census w =
     (case (if \<not> seedDirExists w then mkdirSync env SeedDir w else (Returns (), w)) of
        (Throws e, w0) \<Rightarrow> (Throws e, w0)
      | (ProcessExit c, w0) \<Rightarrow> (ProcessExit c, w0)
      | (Returns u, w0) \<Rightarrow>
          (let todo = toProcess opts census;
               (r, w1) = foldl (processEntry env opts) (emptyReport, w0) todo
           in case writeEuReferences env census w1 of
                (Throws e, w2) \<Rightarrow> (Throws e, w2)
              | (ProcessExit c, w2) \<Rightarrow> (ProcessExit c, w2)
              | (Returns u2, w2) \<Rightarrow>
                  (case diskError env CensusRead of
                     Some msg \<Rightarrow> (Throws (Error msg), w2)
                   | None \<Rightarrow>
                       (case censusFile w2 of
                          None \<Rightarrow> (Throws (Error (asc ''ENOENT'')), w2)
                        | Some cj \<Rightarrow>
                            (case diskError env CensusRewrite of
                               Some msg \<Rightarrow> (Throws (Error msg), w2)
                             | None \<Rightarrow>
                                 (Returns r,
                                  w2\<lparr>censusFile :=
                                       Some (cj\<lparr>ingestion :=
                                         Some \<lparr>completed_at = isoDateTime env (now w2),
                                               total_processed = length todo,
                                               success_count = successCount r,
                                               fail_count = failCount r,
                                               total_provisions = totalProvisions r,
                                               coverage_pct =
                                                 percent1 env (successCount r)
                                                   (length todo)\<rparr>\<rparr>)\<rparr>))))))"

subsection \<open>The entry point\<close>

text \<open>
  How the process ends: the exit of the catalogue validation, the exit of the
  \<open>catch\<close> on \<open>main()\<close>, or the normal end (with the report of the ingestion when it
  ran).
\<close>

datatype run_end = ValidationExit nat | FatalExit js_error | Done "RunReport option"

definition exitCode :: "run_end \<Rightarrow> nat" where
  "exitCode r = (case r of ValidationExit c \<Rightarrow> c | FatalExit e \<Rightarrow> 1 | Done rep \<Rightarrow> 0)"

definition main :: "environment \<Rightarrow> options \<Rightarrow> CensusEntry list \<Rightarrow> world \<Rightarrow> run_end \<times> world" where
  "main env opts catalog w =
     (case runCensus env catalog w of
        (ProcessExit c, w1) \<Rightarrow> (ValidationExit c, w1)
      | (Throws e, w1) \<Rightarrow> (FatalExit e, w1)
      | (Returns census, w1) \<Rightarrow>
          if \<not> censusOnly opts then
            (case runIngestion env opts census w1 of
               (ProcessExit c, w2) \<Rightarrow> (ValidationExit c, w2)
             | (Throws e, w2) \<Rightarrow> (FatalExit e, w2)
             | (Returns r, w2) \<Rightarrow> (Done (Some r), w2))
          else (Done None, w1))"

section \<open>Auxiliary notions for the proofs\<close>

text \<open>The elements of a list in the order of their first occurrences.\<close>

definition firstSeen :: "'a list \<Rightarrow> 'a list" where
  "firstSeen xs = rev (remdups (rev xs))"

text \<open>
  What the deduplication leaves of the provisions numbered \<open>a\<close>: the first of them,
  holding the bodies of all of them.
\<close>

definition mergedFor :: "jsstring \<Rightarrow> ParsedProvision list \<Rightarrow> ParsedProvision option" where
  "mergedFor a xs =
     (case filter (\<lambda>p. article p = a) xs of
        [] \<Rightarrow> None
      | q0 # others \<Rightarrow> Some (q0\<lparr>content := joinWith [10, 10] (map content (q0 # others))\<rparr>))"

text \<open>The invariant of the deduplication loop: \<open>seen\<close> is the index of \<open>deduped\<close>.\<close>

definition seenOk :: "(jsstring \<rightharpoonup> nat) \<Rightarrow> ParsedProvision list \<Rightarrow> bool" where
  "seenOk seen deduped \<longleftrightarrow>
     distinct (map article deduped)
     \<and> (\<forall>k i. seen k = Some i \<longleftrightarrow> (i < length deduped \<and> article (deduped ! i) = k))"

definition bodiesNonEmpty :: "ParsedProvision list \<Rightarrow> bool" where
  "bodiesNonEmpty ps \<longleftrightarrow> list_all (\<lambda>p. content p \<noteq> []) ps"

text \<open>The outcome of the \<open>k\<close>-th request, with the abort by the timer taken into account.\<close>

definition outcomeOf :: "environment \<Rightarrow> nat \<Rightarrow> jsstring \<Rightarrow> attempt_outcome" where
  "outcomeOf env k url =
     (if REQUEST_TIMEOUT_MS \<le> latency env k then Rejected (asc ''This operation was aborted'')
      else server env k url)"

text \<open>
  An attempt that the retry policy counts as failed: a status 429 or from 500 up, or an
  exception.
\<close>

definition failing :: "attempt_outcome \<Rightarrow> bool" where
  "failing out =
     (case out of Responded st ctype rd \<Rightarrow> st = 429 \<or> 500 \<le> st | Rejected msg \<Rightarrow> True)"

text \<open>The fetcher touches nothing on disk.\<close>

definition sameDisk :: "world \<Rightarrow> world \<Rightarrow> bool" where
  "sameDisk w w' \<longleftrightarrow>
     seedFiles w' = seedFiles w \<and> censusFile w' = censusFile w \<and> euRefFile w' = euRefFile w
     \<and> dataDirExists w' = dataDirExists w \<and> seedDirExists w' = seedDirExists w"

text \<open>
  An entry is a success of the loop exactly when its seed file is already usable or the
  disk accepts the write of its seed file.
\<close>

definition usable :: "environment \<Rightarrow> world \<Rightarrow> CensusEntry \<Rightarrow> bool" where
  "usable env w e \<longleftrightarrow>
     existingProvisions w (entry_id e) \<noteq> None \<or> diskError env (SeedPath (entry_id e)) = None"

section \<open>Concrete inputs\<close>

subsection \<open>Texts for the parser\<close>

text \<open>The scenario of the specification: two articles, the second without a title.\<close>

definition scenarioText :: jsstring where
  "scenarioText =
     kwStatya @ asc '' 5. Right to privacy'' @ [10] @ asc ''Everyone has the right...''
     @ [10, 10] @ kwStatya @ asc '' 6.'' @ [10] @ asc ''No one may be subjected...''"

text \<open>A text without any article heading.\<close>

definition plainText :: jsstring where
  "plainText = asc ''Preamble'' @ [10] @ asc ''adopted in 1993''"

text \<open>The same article number twice, with different titles and bodies.\<close>

definition dupText :: jsstring where
  "dupText =
     kwStatya @ asc '' 1. A'' @ [10] @ asc ''foo'' @ [10]
     @ kwStatya @ asc '' 1. B'' @ [10] @ asc ''bar''"

text \<open>Three occurrences of one number around another article.\<close>

definition tripleText :: jsstring where
  "tripleText =
     kwStatya @ asc '' 2. First'' @ [10] @ asc ''x'' @ [10]
     @ kwStatya @ asc '' 3. Other'' @ [10] @ asc ''y'' @ [10]
     @ kwStatya @ asc '' 2. Second'' @ [10] @ asc ''z'' @ [10]
     @ kwStatya @ asc '' 2. Third'' @ [10] @ asc ''w''"

text \<open>Article headings whose trailing text ends in a period, or starts like a list item.\<close>

definition periodLine :: jsstring where
  "periodLine = kwStatya @ asc '' 5. General provisions.''"

definition itemLine :: jsstring where
  "itemLine = kwStatya @ asc '' 7. 1. Everyone is equal before the law''"

subsection \<open>Servers, disks and catalogues\<close>

text \<open>
  An environment from the answers of the server and the refusals of the disk. Every
  request is answered after 50 ms; the decoders leave the (ASCII) bytes as they are.
\<close>

definition serving ::
    "(nat \<Rightarrow> jsstring \<Rightarrow> attempt_outcome) \<Rightarrow> (disk_path \<Rightarrow> jsstring option) \<Rightarrow> environment" where
  "serving srv disk =
     \<lparr>server = srv, latency = (\<lambda>k. 50),
      decode1251 = (\<lambda>bytes. bytes), decodeText = (\<lambda>bytes. bytes),
      domText = (\<lambda>html sel. None), domFirstText = (\<lambda>html sel. []),
      isoDate = (\<lambda>t. asc ''2026-02-25''), isoDateTime = (\<lambda>t. asc ''2026-02-25T00:00:00Z''),
      percent1 = (\<lambda>a b. []), diskError = disk\<rparr>"

text \<open>A server that answers 503 to everything, and one that refuses every connection.\<close>

definition unavailable :: environment where
  "unavailable = serving (\<lambda>k url. Responded 503 None (BodyBytes [])) (\<lambda>p. None)"

definition unreachable :: environment where
  "unreachable = serving (\<lambda>k url. Rejected (asc ''ECONNREFUSED'')) (\<lambda>p. None)"

text \<open>A server that answers 503 to the first request and 200 from then on.\<close>

definition recovering :: environment where
  "recovering =
     serving (\<lambda>k url. if k = 0 then Responded 503 None (BodyBytes [])
                        else Responded 200 None (BodyBytes (asc ''ok''))) (\<lambda>p. None)"

definition startState :: net_state where
  "startState = \<lparr>now = 5000, lastRequestTime = 0, sent = []\<rparr>"

text \<open>The URL that \<open>fetchPravoLawText\<close> builds for the constitution.\<close>

definition charterUrl :: jsstring where
  "charterUrl = asc ''http://pravo.gov.ru/proxy/ips/?savetext=&nd=102027595&page=all''"

definition lawEntry :: "jsstring \<Rightarrow> jsstring \<Rightarrow> CensusClassification \<Rightarrow> CensusEntry" where
  "lawEntry ident key cls =
     \<lparr>entry_id = ident, nd = key, entry_title = asc ''Law'', title_en = asc ''Law'',
      law_identifier = ident, law_type = federal_law, entry_status = in_force,
      effective_date = asc ''2006-07-27'', publication_date = None, last_amended = None,
      classification = cls, description = None,
      source_url = asc ''http://pravo.gov.ru/proxy/ips/?docbody=&nd='' @ key,
      eu_references = None\<rparr>"

definition charter :: CensusEntry where
  "charter = lawEntry (asc ''constitution-rf'') (asc ''102027595'') ingestable"

text \<open>
  A catalogue with the six required laws, of which only the constitution is to be
  ingested, and the same catalogue without the criminal code.
\<close>

definition coreCatalog :: "CensusEntry list" where
  "coreCatalog =
     [charter,
      lawEntry (asc ''uk-rf'') (asc ''102041891'') excluded,
      lawEntry (asc ''gk-rf-1'') (asc ''102033239'') excluded,
      lawEntry (asc ''fz-152-2006'') (asc ''102108261'') excluded,
      lawEntry (asc ''fz-149-2006'') (asc ''102108264'') excluded,
      lawEntry (asc ''fz-187-2017'') (asc ''102439340'') excluded]"

definition partialCatalog :: "CensusEntry list" where
  "partialCatalog =
     [charter,
      lawEntry (asc ''gk-rf-1'') (asc ''102033239'') excluded,
      lawEntry (asc ''fz-152-2006'') (asc ''102108261'') excluded,
      lawEntry (asc ''fz-149-2006'') (asc ''102108264'') excluded,
      lawEntry (asc ''fz-187-2017'') (asc ''102439340'') excluded]"

definition freshWorld :: world where
  "freshWorld =
     \<lparr>now = 5000, lastRequestTime = 0, sent = [], dataDirExists = False,
      seedDirExists = False, censusFile = None, euRefFile = None, seedFiles = Map.empty\<rparr>"

definition fullRun :: options where
  "fullRun = \<lparr>censusOnly = False, skipFetch = False, limit = 0\<rparr>"

text \<open>A server that answers 200 with a body of 40 code units.\<close>

definition shortBody :: jsstring where
  "shortBody = asc ''<p>temporarily unavailable, retry...</p>''"

definition shortReply :: "nat \<Rightarrow> jsstring \<Rightarrow> attempt_outcome" where
  "shortReply k url = Responded 200 (Some (asc ''text/plain'')) (BodyBytes shortBody)"

definition stubServer :: environment where
  "stubServer = serving shortReply (\<lambda>p. None)"

text \<open>The same server with a disk that refuses one seed file, or \<open>census.json\<close>.\<close>

definition refusedSeed :: environment where
  "refusedSeed =
     serving shortReply
       (\<lambda>p. if p = SeedPath (asc ''constitution-rf'') then Some (asc ''EACCES'') else None)"

definition refusedCensus :: environment where
  "refusedCensus = serving shortReply (\<lambda>p. if p = CensusPath then Some (asc ''EACCES'') else None)"

text \<open>
  The same server with a disk that accepts every write, on which \<open>census.json\<close> read
  back at the end of the ingestion does not parse.
\<close>

definition unreadableCensus :: environment where
  "unreadableCensus =
     serving shortReply
       (\<lambda>p. if p = CensusRead then Some (asc ''Unexpected end of JSON input'') else None)"

definition refusedReport :: RunReport where
  "refusedReport =
     \<lparr>results = [\<lparr>entry = charter, ingested = False, provision_count = 0,
                   error = Some (asc ''EACCES'')\<rparr>],
      successCount = 0, failCount = 1, skipCount = 0, totalProvisions = 0\<rparr>"

definition placeholderReport :: RunReport where
  "placeholderReport =
     \<lparr>results = [\<lparr>entry = charter, ingested = True, provision_count = 1, error = None\<rparr>],
      successCount = 1, failCount = 0, skipCount = 0, totalProvisions = 1\<rparr>"

section \<open>Properties of the parser\<close>

lemma length_reindex: "length (reindex i ps) = length ps"
  by (induction ps arbitrary: i) auto

lemma order_index_reindex: "map order_index (reindex i ps) = [i..<i + length ps]"
  by (induction ps arbitrary: i) (auto simp: upt_rec)

lemma article_reindex: "map article (reindex i ps) = map article ps"
  by (induction ps arbitrary: i) auto

lemma reindex_mem:
  "p \<in> set (reindex i ps) \<Longrightarrow> \<exists>p0 \<in> set ps. \<exists>j. p = p0\<lparr>order_index := j\<rparr>"
  by (induction ps arbitrary: i) auto

lemma reindex_mem_conv:
  "p0 \<in> set ps \<Longrightarrow> \<exists>j. p0\<lparr>order_index := j\<rparr> \<in> set (reindex i ps)"
  by (induction ps arbitrary: i) auto

lemma joinWith_blank_merge:
  "joinWith [10, 10] ((c @ 10 # 10 # d) # rs) = c @ 10 # 10 # joinWith [10, 10] (d # rs)"
  by (cases rs) simp_all

lemma remdups_drop_dup:
  "a \<in> set ys \<Longrightarrow> remdups (xs @ a # ys) = remdups (xs @ ys)"
  by (induction xs) auto

lemma firstSeen_dup:
  "a \<in> set xs \<Longrightarrow> firstSeen (xs @ a # ys) = firstSeen (xs @ ys)"
  by (simp add: firstSeen_def remdups_drop_dup)

lemma firstSeen_distinct: "distinct xs \<Longrightarrow> firstSeen xs = xs"
  by (simp add: firstSeen_def distinct_remdups_id)

lemma distinct_firstSeen: "distinct (firstSeen xs)"
  by (simp add: firstSeen_def)

lemma set_firstSeen: "set (firstSeen xs) = set xs"
  by (simp add: firstSeen_def)

lemma filter_distinct_single:
  "distinct (map f xs) \<Longrightarrow> q \<in> set xs \<Longrightarrow> filter (\<lambda>p. f p = f q) xs = [q]"
proof (induction xs)
  case Nil
  then show ?case by simp
next
  case (Cons x xs)
  show ?case
  proof (cases "q = x")
    case True
    have "filter (\<lambda>p. f p = f x) xs = []"
      using Cons.prems(1) by (force simp: filter_empty_conv image_iff)
    with True show ?thesis by simp
  next
    case False
    with Cons.prems have q: "q \<in> set xs" by simp
    then have "f x \<noteq> f q" using Cons.prems(1) by auto
    with Cons.IH q Cons.prems(1) show ?thesis by simp
  qed
qed

lemma mergedFor_distinct:
  assumes "distinct (map article xs)" "q \<in> set xs"
  shows "mergedFor (article q) xs = Some q"
  using filter_distinct_single [OF assms] by (simp add: mergedFor_def)

text \<open>The in-place update of the first occurrence, as a map over the list.\<close>

lemma update_as_map:
  assumes "distinct (map article ded)" "i < length ded"
  shows "ded[i := g (ded ! i)] = map (\<lambda>q. if article q = article (ded ! i) then g q else q) ded"
proof (rule nth_equalityI)
  show "length (ded[i := g (ded ! i)]) = length (map (\<lambda>q. if article q = article (ded ! i) then g q else q) ded)"
    by simp
next
  fix j assume j: "j < length (ded[i := g (ded ! i)])"
  then have jl: "j < length ded" by simp
  show "ded[i := g (ded ! i)] ! j = map (\<lambda>q. if article q = article (ded ! i) then g q else q) ded ! j"
  proof (cases "j = i")
    case True
    then show ?thesis using assms by simp
  next
    case False
    have "article (ded ! j) \<noteq> article (ded ! i)"
      using assms jl False by (metis distinct_conv_nth length_map nth_map)
    then show ?thesis using False jl by simp
  qed
qed


lemma mergedFor_update:
  assumes d: "distinct (map article ded)" and i: "i < length ded"
    and k: "article (ded ! i) = article prov"
  defines "ded' \<equiv> ded[i := (ded ! i)\<lparr>content := content (ded ! i) @ [10, 10] @ content prov\<rparr>]"
  shows "mergedFor a (ded' @ rest) = mergedFor a (ded @ prov # rest)"
proof -
  define g :: "ParsedProvision \<Rightarrow> ParsedProvision" where "g = (\<lambda>q. if article q = article prov
                          then q\<lparr>content := content q @ [10, 10] @ content prov\<rparr> else q)"
  have ded': "ded' = map g ded"
    unfolding ded'_def g_def
    using update_as_map [OF d i, of "\<lambda>q. q\<lparr>content := content q @ [10, 10] @ content prov\<rparr>"] k
    by simp
  have art: "\<And>q. article (g q) = article q" by (simp add: g_def)
  have fm: "filter (\<lambda>p. article p = a) (map g ded) = map g (filter (\<lambda>p. article p = a) ded)"
    by (induction ded) (simp_all add: art)
  show ?thesis
  proof (cases "a = article prov")
    case False
    have "map g (filter (\<lambda>p. article p = a) ded) = filter (\<lambda>p. article p = a) ded"
      using False by (induction ded) (simp_all add: g_def)
    with False show ?thesis by (simp add: mergedFor_def ded' fm)
  next
    case True
    have mem: "ded ! i \<in> set ded" using i by simp
    have "filter (\<lambda>p. article p = article (ded ! i)) ded = [ded ! i]"
      by (rule filter_distinct_single [OF d mem])
    then have one: "filter (\<lambda>p. article p = article prov) ded = [ded ! i]" using k by simp
    have fm': "filter (\<lambda>p. article p = article prov) (map g ded)
                 = map g (filter (\<lambda>p. article p = article prov) ded)"
      using fm True by simp
    have gi: "g (ded ! i) = (ded ! i)\<lparr>content := content (ded ! i) @ [10, 10] @ content prov\<rparr>"
      using k by (simp add: g_def)
    show ?thesis
      unfolding True
      by (simp add: mergedFor_def ded' fm' one gi joinWith_blank_merge)
  qed
qed

lemma seenOk_update:
  assumes "seenOk seen ded" "seen (article prov) = Some i"
  shows "seenOk seen (ded[i := (ded ! i)\<lparr>content := c\<rparr>])"
proof -
  have i: "i < length ded" and k: "article (ded ! i) = article prov"
    using assms by (auto simp: seenOk_def)
  have m: "map article (ded[i := (ded ! i)\<lparr>content := c\<rparr>]) = map article ded"
    using i by (intro nth_equalityI) (auto simp: nth_list_update)
  have n: "\<And>j. j < length ded \<Longrightarrow> article (ded[i := (ded ! i)\<lparr>content := c\<rparr>] ! j) = article (ded ! j)"
    using i by (auto simp: nth_list_update)
  show ?thesis
    using assms(1) unfolding seenOk_def m by (auto simp: n)
qed

lemma seenOk_append:
  assumes "seenOk seen ded" "seen (article prov) = None"
  shows "seenOk (seen(article prov \<mapsto> length ded)) (ded @ [prov])"
proof -
  have fresh: "article prov \<notin> set (map article ded)"
  proof
    assume "article prov \<in> set (map article ded)"
    then obtain j where "j < length ded" "article (ded ! j) = article prov"
      by (auto simp: in_set_conv_nth)
    then have "seen (article prov) = Some j" using assms(1) by (simp add: seenOk_def)
    with assms(2) show False by simp
  qed
  have d: "distinct (map article (ded @ [prov]))"
    using assms(1) fresh by (simp add: seenOk_def)
  have "\<forall>k i. (seen(article prov \<mapsto> length ded)) k = Some i
           \<longleftrightarrow> (i < length (ded @ [prov]) \<and> article ((ded @ [prov]) ! i) = k)"
  proof (intro allI)
    fix k i
    show "(seen(article prov \<mapsto> length ded)) k = Some i
           \<longleftrightarrow> (i < length (ded @ [prov]) \<and> article ((ded @ [prov]) ! i) = k)"
    proof (cases "i < length ded")
      case True
      then have "article (ded ! i) \<noteq> article prov" using fresh by (metis length_map nth_map nth_mem)
      then show ?thesis using True assms(1) by (auto simp: seenOk_def nth_append)
    next
      case False
      then have "seen k \<noteq> Some i" using assms(1) by (simp add: seenOk_def)
      then show ?thesis using False by (auto simp: nth_append)
    qed
  qed
  with d show ?thesis by (simp add: seenOk_def)
qed

lemma dedupe_spec:
  "seenOk seen ded \<Longrightarrow>
   \<exists>out. dedupe ps seen ded = Inr out
     \<and> map article out = firstSeen (map article (ded @ ps))
     \<and> (\<forall>q\<in>set out. mergedFor (article q) (ded @ ps) = Some q)"
proof (induction ps seen ded rule: dedupe.induct)
  case (1 seen deduped)
  then have d: "distinct (map article deduped)" by (simp add: seenOk_def)
  then show ?case by (simp add: firstSeen_distinct mergedFor_distinct)
next
  case (2 prov rest seen deduped)
  have d: "distinct (map article deduped)" using "2.prems" by (simp add: seenOk_def)
  show ?case
  proof (cases "seen (article prov)")
    case None
    have ok: "seenOk (seen(article prov \<mapsto> length deduped)) (deduped @ [prov])"
      by (rule seenOk_append [OF "2.prems" None])
    from "2.IH"(1) [OF None ok] obtain out where
      o: "dedupe rest (seen(article prov \<mapsto> length deduped)) (deduped @ [prov]) = Inr out"
         "map article out = firstSeen (map article ((deduped @ [prov]) @ rest))"
         "\<forall>q\<in>set out. mergedFor (article q) ((deduped @ [prov]) @ rest) = Some q"
      by blast
    have e: "dedupe (prov # rest) seen deduped = Inr out"
      using None o(1) by simp
    show ?thesis using e o(2) o(3) by simp
  next
    case (Some i)
    have i: "i < length deduped" and k: "article (deduped ! i) = article prov"
      using "2.prems" Some by (auto simp: seenOk_def)
    let ?ded' = "deduped[i := (deduped ! i)\<lparr>content := content (deduped ! i) @ [10, 10] @ content prov\<rparr>]"
    have ok: "seenOk seen ?ded'" by (rule seenOk_update [OF "2.prems" Some])
    have m: "map article ?ded' = map article deduped"
      using i by (intro nth_equalityI) (auto simp: nth_list_update)
    have mem: "article prov \<in> set (map article deduped)"
      using i k by (metis length_map nth_map nth_mem)
    from "2.IH"(2) [OF Some i ok] obtain out where
      o: "dedupe rest seen ?ded' = Inr out"
         "map article out = firstSeen (map article (?ded' @ rest))"
         "\<forall>q\<in>set out. mergedFor (article q) (?ded' @ rest) = Some q"
      by blast
    have a: "map article out = firstSeen (map article (deduped @ prov # rest))"
      using o(2) m firstSeen_dup [OF mem, of "map article rest"] by simp
    have b: "\<forall>q\<in>set out. mergedFor (article q) (deduped @ prov # rest) = Some q"
      using o(3) mergedFor_update [OF d i k] by simp
    show ?thesis using Some i o(1) a b by simp
  qed
qed

lemma flushArticle_fields:
  "currentArticleNum (flushArticle st) = []"
  "currentArticleTitle (flushArticle st) = []"
  "currentContent (flushArticle st) = []"
  "inAppendix (flushArticle st) = inAppendix st"
  by (simp_all add: flushArticle_def Let_def)

lemma flushArticle_provisions:
  "provisions (flushArticle st) = provisions st
   \<or> (\<exists>p. provisions (flushArticle st) = provisions st @ [p] \<and> content p \<noteq> []
          \<and> article p = currentArticleNum st \<and> currentArticleNum st \<noteq> [])"
  by (simp add: flushArticle_def Let_def)

lemma flushArticle_idle:
  "currentArticleNum st = [] \<Longrightarrow> provisions (flushArticle st) = provisions st"
  by (simp add: flushArticle_def Let_def)

lemma flushArticle_good:
  "bodiesNonEmpty (provisions st) \<Longrightarrow> bodiesNonEmpty (provisions (flushArticle st))"
  using flushArticle_provisions [of st] by (auto simp: bodiesNonEmpty_def)

lemma startArticle_provisions:
  "provisions (startArticle st num rest) = provisions (flushArticle st)"
  by (simp add: startArticle_def Let_def)

lemma addContentLine_provisions:
  "provisions (addContentLine st line) = provisions st"
  by (simp add: addContentLine_def Let_def)

lemma addContentLine_num:
  "currentArticleNum (addContentLine st line) = currentArticleNum st"
  by (simp add: addContentLine_def Let_def)

lemma processLine_good:
  assumes "bodiesNonEmpty (provisions st)"
  shows "bodiesNonEmpty (provisions (processLine st l))"
proof -
  have a: "bodiesNonEmpty (provisions (flushArticle (st\<lparr>inAppendix := True\<rparr>)))"
    using flushArticle_good [of "st\<lparr>inAppendix := True\<rparr>"] assms by simp
  have b: "bodiesNonEmpty (provisions (flushArticle (st\<lparr>inAppendix := False\<rparr>)))"
    using flushArticle_good [of "st\<lparr>inAppendix := False\<rparr>"] assms by simp
  have c: "bodiesNonEmpty (provisions (flushArticle st))"
    using flushArticle_good [OF assms] .
  show ?thesis
    using assms a b c
    by (auto simp: processLine_def Let_def startArticle_provisions addContentLine_provisions
        split: option.splits)
qed

lemma foldl_processLine_good:
  "bodiesNonEmpty (provisions st) \<Longrightarrow> bodiesNonEmpty (provisions (foldl processLine st ls))"
  by (induction ls arbitrary: st) (simp_all add: processLine_good)

lemma scanText_good: "bodiesNonEmpty (scanText text)"
proof -
  have "bodiesNonEmpty (provisions initialState)"
    by (simp add: initialState_def bodiesNonEmpty_def)
  then show ?thesis
    unfolding scanText_def by (intro flushArticle_good foldl_processLine_good)
qed

lemma processLine_idle:
  assumes "articleMatch (trim l) = None" "currentArticleNum st = []" "provisions st = []"
  shows "currentArticleNum (processLine st l) = [] \<and> provisions (processLine st l) = []"
  using assms
  by (simp add: processLine_def Let_def flushArticle_fields flushArticle_idle
      addContentLine_provisions addContentLine_num)

lemma foldl_processLine_idle:
  assumes "\<forall>l\<in>set ls. articleMatch (trim l) = None" "currentArticleNum st = []" "provisions st = []"
  shows "currentArticleNum (foldl processLine st ls) = [] \<and> provisions (foldl processLine st ls) = []"
  using assms
proof (induction ls arbitrary: st)
  case Nil
  then show ?case by simp
next
  case (Cons l ls)
  have "currentArticleNum (processLine st l) = [] \<and> provisions (processLine st l) = []"
    using Cons.prems by (intro processLine_idle) simp_all
  then show ?case using Cons.IH [of "processLine st l"] Cons.prems(1) by simp
qed

lemma scanText_no_marker:
  assumes "\<forall>l\<in>set (splitLines text). articleMatch (trim l) = None"
  shows "scanText text = []"
proof -
  have "currentArticleNum (foldl processLine initialState (splitLines text)) = []
        \<and> provisions (foldl processLine initialState (splitLines text)) = []"
    using assms by (intro foldl_processLine_idle) (simp_all add: initialState_def)
  then show ?thesis by (simp add: scanText_def flushArticle_idle)
qed

lemma parse_spec:
  "\<exists>out. dedupe (scanText text) Map.empty [] = Inr out
     \<and> parseRussianText text = Inr (reindex 0 out)
     \<and> map article out = firstSeen (map article (scanText text))
     \<and> (\<forall>q\<in>set out. mergedFor (article q) (scanText text) = Some q)"
proof -
  have "seenOk Map.empty []" by (simp add: seenOk_def)
  from dedupe_spec [OF this, of "scanText text"] obtain out where
    o: "dedupe (scanText text) Map.empty [] = Inr out"
       "map article out = firstSeen (map article (scanText text))"
       "\<forall>q\<in>set out. mergedFor (article q) (scanText text) = Some q"
    by auto
  then show ?thesis by (simp add: parseRussianText_def)
qed

lemma joinWith_nonempty: "x \<noteq> [] \<Longrightarrow> joinWith sep (x # xs) \<noteq> []"
  by (cases xs) simp_all

lemma mergedFor_content_nonempty:
  assumes "bodiesNonEmpty raw" "mergedFor a raw = Some q"
  shows "content q \<noteq> []"
proof -
  from assms(2) obtain q0 others where
    f: "filter (\<lambda>p. article p = a) raw = q0 # others"
    and q: "q = q0\<lparr>content := joinWith [10, 10] (map content (q0 # others))\<rparr>"
    by (auto simp: mergedFor_def split: list.splits)
  have "q0 \<in> set (filter (\<lambda>p. article p = a) raw)" using f by simp
  then have "q0 \<in> set raw" by simp
  then have "content q0 \<noteq> []" using assms(1) by (simp add: bodiesNonEmpty_def list_all_iff)
  then show ?thesis using q joinWith_nonempty [of "content q0" "[10, 10]" "map content others"] by simp
qed

lemma find_filter:
  "find P xs = (case filter P xs of [] \<Rightarrow> None | x # _ \<Rightarrow> Some x)"
  by (induction xs) simp_all

lemma mergedFor_SomeD:
  assumes "mergedFor a raw = Some q"
  shows "\<exists>first. find (\<lambda>p. article p = a) raw = Some first
           \<and> article q = a \<and> article first = a
           \<and> title q = title first \<and> provision_ref q = provision_ref first
           \<and> content q = joinWith [10, 10] (map content (filter (\<lambda>p. article p = a) raw))"
proof -
  from assms obtain q0 others where
    f: "filter (\<lambda>p. article p = a) raw = q0 # others"
    and q: "q = q0\<lparr>content := joinWith [10, 10] (map content (q0 # others))\<rparr>"
    by (auto simp: mergedFor_def split: list.splits)
  have "q0 \<in> set (filter (\<lambda>p. article p = a) raw)" using f by simp
  then have a: "article q0 = a" by simp
  have "find (\<lambda>p. article p = a) raw = Some q0" by (simp add: find_filter f)
  then show ?thesis using a q f by simp
qed

subsection \<open>Evaluating the parser on concrete texts\<close>

lemmas char_classes = isWhiteSpace_def isLineTerminator_def isDigit_def isWordChar_def

lemmas kw_defs = kwStatya_def kwPrilozhenie_def kwGlava_def kwRazdel_def kwChast_def
  kwPodrazdel_def

lemmas matchers = articleMatch_def matchArticlePattern_def matchArticlePatternAlt_def
  articleHead_def captureRest_def testAppendix_def testChapter_def chapterTail_def
  isChapterNumeral_def startsWithCI_def canonicalize_def wordBoundary_def looksEnumerated_def
  startsNumbered_def startsWith_def endsWith_def trim_def

lemmas parser_steps = processLine_def startArticle_def addContentLine_def flushArticle_def
  flushContent_def collapseNewlines_def emitNewlines_def initialState_def Let_def

lemma scenario_lines:
  "splitLines scenarioText =
     [kwStatya @ asc '' 5. Right to privacy'', asc ''Everyone has the right...'', [],
      kwStatya @ asc '' 6.'', asc ''No one may be subjected...'']"
  by (simp add: scenarioText_def kwStatya_def asc_def)

lemma scenario_scan:
  "scanText scenarioText =
     [\<lparr>article = asc ''5'', title = asc ''Right to privacy'',
       content = asc ''Everyone has the right...'', provision_ref = asc ''5'',
       order_index = 0\<rparr>,
      \<lparr>article = asc ''6'', title = [], content = asc ''No one may be subjected...'',
       provision_ref = asc ''6'', order_index = 1\<rparr>]"
  unfolding scanText_def scenario_lines
  by (simp add: parser_steps matchers kw_defs asc_def char_classes)

lemma scenario_parse:
  "parseRussianText scenarioText =
     Inr [\<lparr>article = asc ''5'', title = asc ''Right to privacy'',
           content = asc ''Everyone has the right...'', provision_ref = asc ''5'',
           order_index = 0\<rparr>,
          \<lparr>article = asc ''6'', title = [], content = asc ''No one may be subjected...'',
           provision_ref = asc ''6'', order_index = 1\<rparr>]"
  unfolding parseRussianText_def scenario_scan
  by (simp add: asc_def)

lemma plain_lines: "splitLines plainText = [asc ''Preamble'', asc ''adopted in 1993'']"
  by (simp add: plainText_def asc_def)

lemma plain_no_marker:
  "list_all (\<lambda>l. articleMatch (trim l) = None) (splitLines plainText)"
  unfolding plain_lines
  by (simp add: matchers kw_defs asc_def char_classes)

lemma dup_lines:
  "splitLines dupText =
     [kwStatya @ asc '' 1. A'', asc ''foo'', kwStatya @ asc '' 1. B'', asc ''bar'']"
  by (simp add: dupText_def kwStatya_def asc_def)

lemma dup_scan:
  "scanText dupText =
     [\<lparr>article = asc ''1'', title = asc ''A'', content = asc ''foo'',
       provision_ref = asc ''1'', order_index = 0\<rparr>,
      \<lparr>article = asc ''1'', title = asc ''B'', content = asc ''bar'',
       provision_ref = asc ''1'', order_index = 1\<rparr>]"
  unfolding scanText_def dup_lines
  by (simp add: parser_steps matchers kw_defs asc_def char_classes)

lemma dup_parse:
  "parseRussianText dupText =
     Inr [\<lparr>article = asc ''1'', title = asc ''A'', content = asc ''foo'' @ [10, 10] @ asc ''bar'',
           provision_ref = asc ''1'', order_index = 0\<rparr>]"
  unfolding parseRussianText_def dup_scan
  by (simp add: asc_def)

lemma triple_lines:
  "splitLines tripleText =
     [kwStatya @ asc '' 2. First'', asc ''x'', kwStatya @ asc '' 3. Other'', asc ''y'',
      kwStatya @ asc '' 2. Second'', asc ''z'', kwStatya @ asc '' 2. Third'', asc ''w'']"
  by (simp add: tripleText_def kwStatya_def asc_def)

lemma triple_scan:
  "scanText tripleText =
     [\<lparr>article = asc ''2'', title = asc ''First'', content = asc ''x'',
       provision_ref = asc ''2'', order_index = 0\<rparr>,
      \<lparr>article = asc ''3'', title = asc ''Other'', content = asc ''y'',
       provision_ref = asc ''3'', order_index = 1\<rparr>,
      \<lparr>article = asc ''2'', title = asc ''Second'', content = asc ''z'',
       provision_ref = asc ''2'', order_index = 2\<rparr>,
      \<lparr>article = asc ''2'', title = asc ''Third'', content = asc ''w'',
       provision_ref = asc ''2'', order_index = 3\<rparr>]"
  unfolding scanText_def triple_lines
  by (simp add: parser_steps matchers kw_defs asc_def char_classes)

lemma triple_parse:
  "parseRussianText tripleText =
     Inr [\<lparr>article = asc ''2'', title = asc ''First'',
           content = asc ''x'' @ [10, 10] @ asc ''z'' @ [10, 10] @ asc ''w'',
           provision_ref = asc ''2'', order_index = 0\<rparr>,
          \<lparr>article = asc ''3'', title = asc ''Other'', content = asc ''y'',
           provision_ref = asc ''3'', order_index = 1\<rparr>]"
  unfolding parseRussianText_def triple_scan
  by (simp add: asc_def)

lemma periodLine_match:
  "trim periodLine \<noteq> [] \<and> \<not> testAppendix (trim periodLine)
   \<and> articleMatch (trim periodLine) = Some (asc ''5'', asc ''General provisions.'')"
  by (simp add: periodLine_def matchers kw_defs asc_def char_classes)

lemma itemLine_match:
  "trim itemLine \<noteq> [] \<and> \<not> testAppendix (trim itemLine)
   \<and> articleMatch (trim itemLine)
       = Some (asc ''7'', asc ''1. Everyone is equal before the law'')"
  by (simp add: itemLine_def matchers kw_defs asc_def char_classes)

subsection \<open>The claims about the parser\<close>

text \<open>
  C4, as the specification states it: the text after the article marker is the title
  if and only if it is short, does not look like an enumerated item and does not end in
  sentence-terminal punctuation. The code does not look at the end of that text when it
  files it: trailing text that ends in a period is taken as the title, and the body
  stays empty.
\<close>

theorem title_ending_in_period_counterexample:
  "endsWith (asc ''General provisions.'') (asc ''.'')
   \<and> articleMatch (trim periodLine) = Some (asc ''5'', asc ''General provisions.'')
   \<and> currentArticleTitle (processLine initialState periodLine) = asc ''General provisions.''
   \<and> currentContent (processLine initialState periodLine) = []"
  by (simp add: periodLine_def parser_steps matchers kw_defs asc_def char_classes)

text \<open>
  C4, amended: on a line that starts an article, the non-empty trimmed text after the
  marker becomes the title exactly when it is shorter than 200 code units and does not
  start like an enumerated item (digits, a period, white space); otherwise it becomes
  the first body line. Its last character plays no part. Empty trailing text gives
  neither a title nor a body line.
\<close>

theorem article_start_title_or_body:
  assumes "trim rawLine \<noteq> []" "\<not> testAppendix (trim rawLine)"
    and "articleMatch (trim rawLine) = Some (num, rest)"
  shows "currentArticleNum (processLine st rawLine) = num
    \<and> currentArticleTitle (processLine st rawLine)
        = (if trim rest \<noteq> [] \<and> length (trim rest) < 200 \<and> \<not> looksEnumerated (trim rest)
           then trim rest else [])
    \<and> currentContent (processLine st rawLine)
        = (if trim rest \<noteq> [] \<and> \<not> (length (trim rest) < 200 \<and> \<not> looksEnumerated (trim rest))
           then [trim rest] else [])"
  using assms
  by (simp add: processLine_def startArticle_def Let_def flushArticle_fields)

theorem article_start_title_or_body_witness:
  "trim periodLine \<noteq> [] \<and> \<not> testAppendix (trim periodLine)
   \<and> articleMatch (trim periodLine) = Some (asc ''5'', asc ''General provisions.'')
   \<and> currentArticleTitle (processLine initialState periodLine) = asc ''General provisions.''
   \<and> currentContent (processLine initialState periodLine) = []
   \<and> trim itemLine \<noteq> [] \<and> \<not> testAppendix (trim itemLine)
   \<and> articleMatch (trim itemLine) = Some (asc ''7'', asc ''1. Everyone is equal before the law'')
   \<and> currentArticleTitle (processLine initialState itemLine) = []
   \<and> currentContent (processLine initialState itemLine)
       = [asc ''1. Everyone is equal before the law'']"
proof -
  have p: "trim periodLine \<noteq> []" "\<not> testAppendix (trim periodLine)"
    "articleMatch (trim periodLine) = Some (asc ''5'', asc ''General provisions.'')"
    using periodLine_match by simp_all
  have i: "trim itemLine \<noteq> []" "\<not> testAppendix (trim itemLine)"
    "articleMatch (trim itemLine) = Some (asc ''7'', asc ''1. Everyone is equal before the law'')"
    using itemLine_match by simp_all
  have e1: "trim (asc ''General provisions.'') = asc ''General provisions.''"
    "\<not> looksEnumerated (asc ''General provisions.'')"
    by (simp_all add: trim_def looksEnumerated_def asc_def char_classes)
  have e2: "trim (asc ''1. Everyone is equal before the law'')
              = asc ''1. Everyone is equal before the law''"
    "looksEnumerated (asc ''1. Everyone is equal before the law'')"
    by (simp_all add: trim_def looksEnumerated_def asc_def char_classes)
  have n1: "asc ''General provisions.'' \<noteq> []" "length (asc ''General provisions.'') < 200"
    by (simp_all add: asc_def)
  have n2: "asc ''1. Everyone is equal before the law'' \<noteq> []"
    by (simp add: asc_def)
  show ?thesis
    using article_start_title_or_body [OF p, of initialState]
      article_start_title_or_body [OF i, of initialState] p i
    by (simp add: e1 e2 n1 n2)
qed

text \<open>
  C6: when an article number is emitted more than once, the result has exactly one
  provision for it (the numbers of the result are distinct, and they are the numbers
  emitted, in the order of their first occurrences); its body is the bodies of all the
  occurrences, in the order emitted, joined by a blank line; and the position indices
  of the result are 0, 1, 2, ...
\<close>

theorem duplicate_numbers_merged:
  "\<exists>out. parseRussianText text = Inr out
     \<and> map order_index out = [0..<length out]
     \<and> distinct (map article out)
     \<and> map article out = firstSeen (map article (scanText text))
     \<and> (\<forall>a\<in>set (map article (scanText text)). \<exists>p\<in>set out. article p = a
           \<and> content p
               = joinWith [10, 10] (map content (filter (\<lambda>q. article q = a) (scanText text))))"
proof -
  from parse_spec [of "text"] obtain out where
    o: "parseRussianText text = Inr (reindex 0 out)"
       "map article out = firstSeen (map article (scanText text))"
       "\<forall>q\<in>set out. mergedFor (article q) (scanText text) = Some q"
    by blast
  let ?res = "reindex 0 out"
  have idx: "map order_index ?res = [0..<length ?res]"
    using order_index_reindex [of 0 out] by (simp add: length_reindex)
  have arts: "map article ?res = firstSeen (map article (scanText text))"
    using o(2) by (simp add: article_reindex)
  have dist: "distinct (map article ?res)"
    unfolding arts by (rule distinct_firstSeen)
  have bodies: "\<forall>a\<in>set (map article (scanText text)). \<exists>p\<in>set ?res. article p = a
       \<and> content p = joinWith [10, 10] (map content (filter (\<lambda>q. article q = a) (scanText text)))"
  proof
    fix a assume "a \<in> set (map article (scanText text))"
    then have "a \<in> set (map article out)" using o(2) by (simp add: set_firstSeen)
    then obtain q where q: "q \<in> set out" "article q = a" by auto
    then have "mergedFor a (scanText text) = Some q" using o(3) by auto
    from mergedFor_SomeD [OF this]
    have c: "content q = joinWith [10, 10] (map content (filter (\<lambda>p. article p = a) (scanText text)))"
      by blast
    from reindex_mem_conv [OF q(1), of 0] obtain j where
      "q\<lparr>order_index := j\<rparr> \<in> set ?res" by blast
    then show "\<exists>p\<in>set ?res. article p = a
       \<and> content p = joinWith [10, 10] (map content (filter (\<lambda>q. article q = a) (scanText text)))"
      using q(2) c by (intro bexI [of _ "q\<lparr>order_index := j\<rparr>"]) simp_all
  qed
  show ?thesis using o(1) idx dist arts bodies by blast
qed

theorem duplicate_numbers_merged_witness:
  "map article (scanText dupText) = [asc ''1'', asc ''1'']
   \<and> map content (scanText dupText) = [asc ''foo'', asc ''bar'']
   \<and> parseRussianText dupText =
       Inr [\<lparr>article = asc ''1'', title = asc ''A'',
             content = asc ''foo'' @ [10, 10] @ asc ''bar'',
             provision_ref = asc ''1'', order_index = 0\<rparr>]"
  using duplicate_numbers_merged [of dupText]
  by (simp add: dup_parse dup_scan)

text \<open>
  C7: on every text the parser returns a list, without raising; the position indices of
  the list are 0, 1, 2, ... and no body is empty; and when no line of the text is an
  article heading (neither article pattern matches the trimmed line), the list is
  empty.
\<close>

theorem parse_never_raises:
  "\<exists>ps. parseRussianText text = Inr ps
     \<and> map order_index ps = [0..<length ps]
     \<and> (\<forall>p\<in>set ps. content p \<noteq> [])
     \<and> ((\<forall>l\<in>set (splitLines text). articleMatch (trim l) = None) \<longrightarrow> ps = [])"
proof -
  from parse_spec [of "text"] obtain out where
    o: "dedupe (scanText text) Map.empty [] = Inr out"
       "parseRussianText text = Inr (reindex 0 out)"
       "map article out = firstSeen (map article (scanText text))"
       "\<forall>q\<in>set out. mergedFor (article q) (scanText text) = Some q"
    by blast
  have idx: "map order_index (reindex 0 out) = [0..<length (reindex 0 out)]"
    using order_index_reindex [of 0 out] by (simp add: length_reindex)
  have ne: "\<forall>p\<in>set (reindex 0 out). content p \<noteq> []"
  proof
    fix p assume "p \<in> set (reindex 0 out)"
    then obtain p0 j where p0: "p0 \<in> set out" "p = p0\<lparr>order_index := j\<rparr>"
      using reindex_mem by blast
    then have "mergedFor (article p0) (scanText text) = Some p0" using o(4) by simp
    then have "content p0 \<noteq> []"
      using scanText_good by (rule mergedFor_content_nonempty [rotated])
    then show "content p \<noteq> []" using p0(2) by simp
  qed
  have em: "(\<forall>l\<in>set (splitLines text). articleMatch (trim l) = None) \<longrightarrow> reindex 0 out = []"
  proof
    assume "\<forall>l\<in>set (splitLines text). articleMatch (trim l) = None"
    then have "scanText text = []" by (rule scanText_no_marker)
    then have "out = []" using o(1) by simp
    then show "reindex 0 out = []" by simp
  qed
  show ?thesis using o(2) idx ne em by blast
qed

theorem parse_never_raises_witness:
  "list_all (\<lambda>l. articleMatch (trim l) = None) (splitLines plainText)
   \<and> parseRussianText plainText = Inr []
   \<and> parseRussianText scenarioText =
       Inr [\<lparr>article = asc ''5'', title = asc ''Right to privacy'',
             content = asc ''Everyone has the right...'', provision_ref = asc ''5'',
             order_index = 0\<rparr>,
            \<lparr>article = asc ''6'', title = [], content = asc ''No one may be subjected...'',
             provision_ref = asc ''6'', order_index = 1\<rparr>]"
proof -
  have h: "\<forall>l\<in>set (splitLines plainText). articleMatch (trim l) = None"
    using plain_no_marker by (simp add: list_all_iff)
  have "parseRussianText plainText = Inr []"
    using parse_never_raises [of plainText] h by auto
  then show ?thesis
    using parse_never_raises [of scenarioText] plain_no_marker scenario_parse by simp
qed

text \<open>
  C10: every provision of the result has the number, the title and the reference key
  of the first provision emitted with its number; of the later ones with that number,
  only the bodies are kept, appended to the body in the order emitted.
\<close>

theorem merged_keeps_first_title:
  "\<exists>out. parseRussianText text = Inr out
     \<and> (\<forall>p\<in>set out. \<exists>first.
           find (\<lambda>q. article q = article p) (scanText text) = Some first
           \<and> article p = article first \<and> title p = title first
           \<and> provision_ref p = provision_ref first
           \<and> content p = joinWith [10, 10]
                (map content (filter (\<lambda>q. article q = article p) (scanText text))))"
proof -
  from parse_spec [of "text"] obtain out where
    o: "parseRussianText text = Inr (reindex 0 out)"
       "\<forall>q\<in>set out. mergedFor (article q) (scanText text) = Some q"
    by blast
  have "\<forall>p\<in>set (reindex 0 out). \<exists>first.
           find (\<lambda>q. article q = article p) (scanText text) = Some first
           \<and> article p = article first \<and> title p = title first
           \<and> provision_ref p = provision_ref first
           \<and> content p = joinWith [10, 10]
                (map content (filter (\<lambda>q. article q = article p) (scanText text)))"
  proof
    fix p assume "p \<in> set (reindex 0 out)"
    then obtain p0 j where p0: "p0 \<in> set out" "p = p0\<lparr>order_index := j\<rparr>"
      using reindex_mem by blast
    then have "mergedFor (article p0) (scanText text) = Some p0" using o(2) by simp
    from mergedFor_SomeD [OF this] obtain first where
      "find (\<lambda>q. article q = article p0) (scanText text) = Some first"
      "article first = article p0" "title p0 = title first"
      "provision_ref p0 = provision_ref first"
      "content p0 = joinWith [10, 10]
          (map content (filter (\<lambda>q. article q = article p0) (scanText text)))"
      by blast
    then show "\<exists>first.
           find (\<lambda>q. article q = article p) (scanText text) = Some first
           \<and> article p = article first \<and> title p = title first
           \<and> provision_ref p = provision_ref first
           \<and> content p = joinWith [10, 10]
                (map content (filter (\<lambda>q. article q = article p) (scanText text)))"
      using p0(2) by (intro exI [of _ first]) simp
  qed
  with o(1) show ?thesis by blast
qed

theorem merged_keeps_first_title_witness:
  "map title (scanText tripleText) = [asc ''First'', asc ''Other'', asc ''Second'', asc ''Third'']
   \<and> map article (scanText tripleText) = [asc ''2'', asc ''3'', asc ''2'', asc ''2'']
   \<and> parseRussianText tripleText =
       Inr [\<lparr>article = asc ''2'', title = asc ''First'',
             content = asc ''x'' @ [10, 10] @ asc ''z'' @ [10, 10] @ asc ''w'',
             provision_ref = asc ''2'', order_index = 0\<rparr>,
            \<lparr>article = asc ''3'', title = asc ''Other'', content = asc ''y'',
             provision_ref = asc ''3'', order_index = 1\<rparr>]"
  using merged_keeps_first_title [of tripleText]
  by (simp add: triple_parse triple_scan)

section \<open>Properties of the fetcher\<close>

declare fetchLoop.simps [simp del]

lemma sendRequest_outcome:
  "fst (sendRequest env url s) = outcomeOf env (length (sent s)) url"
  by (simp add: sendRequest_def outcomeOf_def Let_def)

lemma sendRequest_sent:
  "sent (snd (sendRequest env url s)) = sent s @ [(now s, url)]"
  by (simp add: sendRequest_def Let_def sleep_def)

lemma sent_sleep: "sent (sleep ms s) = sent s"
  by (simp add: sleep_def)

lemma sent_rateLimit: "sent (rateLimit s) = sent s"
  by (simp add: rateLimit_def Let_def sleep_def)

lemma fetchLoop_all_failing:
  assumes "n = nat (maxRetries - attempt)" "attempt \<le> maxRetries"
    and "\<forall>j\<le>n. failing (outcomeOf env (length (sent s) + j) url)"
  shows "fst (fetchLoop env url maxRetries attempt s)
           = (case outcomeOf env (length (sent s) + n) url of
                Responded st ctype (BodyBytes bytes) \<Rightarrow> Inr (readBody env url st ctype bytes)
              | Responded st ctype (BodyFails msg) \<Rightarrow> Inl (Error msg)
              | Rejected msg \<Rightarrow> Inl (Error msg))
         \<and> length (sent (snd (fetchLoop env url maxRetries attempt s))) = length (sent s) + n + 1"
  using assms
proof (induction n arbitrary: attempt s)
  case 0
  then have eq: "attempt = maxRetries" by simp
  obtain out s1 where sr: "sendRequest env url s = (out, s1)" by (cases "sendRequest env url s")
  have o: "out = outcomeOf env (length (sent s)) url" using sendRequest_outcome [of env url s] sr by simp
  have l: "length (sent s1) = length (sent s) + 1" using sendRequest_sent [of env url s] sr by simp
  show ?case
    unfolding fetchLoop.simps [of env url maxRetries attempt s]
    using eq sr o l
    by (auto split: attempt_outcome.splits body_read.splits)
next
  case (Suc n)
  then have lt: "attempt < maxRetries" by simp
  obtain out s1 where sr: "sendRequest env url s = (out, s1)" by (cases "sendRequest env url s")
  have o: "out = outcomeOf env (length (sent s)) url" using sendRequest_outcome [of env url s] sr by simp
  have l: "length (sent s1) = length (sent s) + 1" using sendRequest_sent [of env url s] sr by simp
  have f0: "failing out" using Suc.prems(3) o by (metis add.right_neutral le0)
  have n': "n = nat (maxRetries - (attempt + 1))" using Suc.prems(1) by simp
  have le': "attempt + 1 \<le> maxRetries" using lt by simp
  have shift: "\<And>ms. \<forall>j\<le>n. failing (outcomeOf env (length (sent (sleep ms s1)) + j) url)"
  proof (intro allI impI)
    fix ms j assume "j \<le> n"
    then have "Suc j \<le> Suc n" by simp
    then have "failing (outcomeOf env (length (sent s) + Suc j) url)" using Suc.prems(3) by blast
    then show "failing (outcomeOf env (length (sent (sleep ms s1)) + j) url)"
      by (simp add: sent_sleep l)
  qed
  have rec: "\<And>ms. fst (fetchLoop env url maxRetries (attempt + 1) (sleep ms s1))
           = (case outcomeOf env (length (sent s) + Suc n) url of
                Responded st ctype (BodyBytes bytes) \<Rightarrow> Inr (readBody env url st ctype bytes)
              | Responded st ctype (BodyFails msg) \<Rightarrow> Inl (Error msg)
              | Rejected msg \<Rightarrow> Inl (Error msg))
         \<and> length (sent (snd (fetchLoop env url maxRetries (attempt + 1) (sleep ms s1))))
             = length (sent s) + Suc n + 1"
    using Suc.IH [OF n' le' shift] by (simp add: sent_sleep l)
  show ?case
  proof (cases out)
    case (Responded st ctype rd)
    then have "st = 429 \<or> 500 \<le> st" using f0 by (simp add: failing_def)
    then show ?thesis
      unfolding fetchLoop.simps [of env url maxRetries attempt s]
      using lt sr Responded rec by simp
  next
    case (Rejected msg)
    then show ?thesis
      unfolding fetchLoop.simps [of env url maxRetries attempt s]
      using lt sr rec by simp
  qed
qed

subsection \<open>Evaluating the fetcher on concrete servers\<close>

lemmas fetch_steps = fetchWithRateLimit_def fetchLoop.simps sendRequest_def rateLimit_def
  sleep_def readBody_def MIN_DELAY_MS_def REQUEST_TIMEOUT_MS_def Let_def

lemma charterUrl_pravo: "includes_js charterUrl (asc ''pravo.gov.ru'')"
  by (simp add: charterUrl_def asc_def startsWith_def)

lemma unavailable_outcomes:
  "outcomeOf unavailable j url = Responded 503 None (BodyBytes [])"
  by (simp add: outcomeOf_def unavailable_def serving_def REQUEST_TIMEOUT_MS_def)

lemma unreachable_outcomes:
  "outcomeOf unreachable j url = Rejected (asc ''ECONNREFUSED'')"
  by (simp add: outcomeOf_def unreachable_def serving_def REQUEST_TIMEOUT_MS_def)

lemma unavailable_run:
  "fetchWithRateLimit unavailable charterUrl 3 startState =
     (Inr \<lparr>status = 503, body = [], contentType = []\<rparr>,
      \<lparr>now = 19200, lastRequestTime = 5000,
       sent = [(5000, charterUrl), (7050, charterUrl), (11100, charterUrl),
               (19150, charterUrl)]\<rparr>)"
  by (simp add: fetch_steps unavailable_def serving_def startState_def)

lemma unreachable_run:
  "fst (fetchWithRateLimit unreachable charterUrl 3 startState)
     = Inl (Error (asc ''ECONNREFUSED''))"
  by (simp add: fetch_steps unreachable_def serving_def startState_def)

lemma recovering_first_call:
  "fetchWithRateLimit recovering charterUrl 3 startState =
     (Inr \<lparr>status = 200, body = asc ''ok'', contentType = []\<rparr>,
      \<lparr>now = 7100, lastRequestTime = 5000,
       sent = [(5000, charterUrl), (7050, charterUrl)]\<rparr>)"
  using charterUrl_pravo
  by (simp add: fetch_steps recovering_def serving_def startState_def)

lemma recovering_second_call:
  "fetchWithRateLimit recovering charterUrl 3
     \<lparr>now = 7100, lastRequestTime = 5000, sent = [(5000, charterUrl), (7050, charterUrl)]\<rparr> =
     (Inr \<lparr>status = 200, body = asc ''ok'', contentType = []\<rparr>,
      \<lparr>now = 7150, lastRequestTime = 7100,
       sent = [(5000, charterUrl), (7050, charterUrl), (7100, charterUrl)]\<rparr>)"
  using charterUrl_pravo
  by (simp add: fetch_steps recovering_def serving_def)

subsection \<open>How a call ends when every attempt fails\<close>

text \<open>
  When every attempt of a call (\<open>maxRetries + 1\<close> of them, for \<open>maxRetries\<close> not
  negative) yields a status 429 or from 500 up, or an exception, the call sends exactly
  \<open>maxRetries + 1\<close> requests and ends as its last attempt does: with the error of the
  last attempt when that attempt was an exception (a rejected or aborted request, or a
  body that could not be read), and with a result carrying the status of the last
  response when that attempt was a response.
\<close>

lemma exhausted_retries_outcome:
  assumes "0 \<le> maxRetries"
    and "\<forall>j\<le>nat maxRetries. failing (outcomeOf env (length (sent s) + j) url)"
  shows "fst (fetchWithRateLimit env url maxRetries s)
           = (case outcomeOf env (length (sent s) + nat maxRetries) url of
                Responded st ctype (BodyBytes bytes) \<Rightarrow> Inr (readBody env url st ctype bytes)
              | Responded st ctype (BodyFails msg) \<Rightarrow> Inl (Error msg)
              | Rejected msg \<Rightarrow> Inl (Error msg))
         \<and> length (sent (snd (fetchWithRateLimit env url maxRetries s)))
             = length (sent s) + nat maxRetries + 1"
  unfolding fetchWithRateLimit_def
  using fetchLoop_all_failing [of "nat maxRetries" maxRetries 0 env "rateLimit s" url] assms
  by (simp add: sent_rateLimit)

subsection \<open>The claims about the fetcher\<close>

text \<open>
  C1: when every attempt up to the maximum yields a status 429 or 5xx, or an exception,
  the call fails and never returns the last response. The code rethrows on the last
  attempt only in its \<open>catch\<close> branch; after a response with such a status on the
  last attempt it goes on to decode the body and returns, and the \<open>throw\<close> after the
  loop is never reached. With the default of three retries and a server that answers
  503 to each of the four requests, the call returns a result that carries the status
  503; with a server that refuses every connection, it fails.
\<close>

theorem exhausted_retries_return_last_response:
  "list_all (\<lambda>j. outcomeOf unavailable j charterUrl = Responded 503 None (BodyBytes []))
     [0, 1, 2, 3]
   \<and> fetchWithRateLimit unavailable charterUrl 3 startState =
       (Inr \<lparr>status = 503, body = [], contentType = []\<rparr>,
        \<lparr>now = 19200, lastRequestTime = 5000,
         sent = [(5000, charterUrl), (7050, charterUrl), (11100, charterUrl),
                 (19150, charterUrl)]\<rparr>)
   \<and> fst (fetchWithRateLimit unreachable charterUrl 3 startState)
       = Inl (Error (asc ''ECONNREFUSED''))"
  by (simp add: unavailable_outcomes unavailable_run unreachable_run)

text \<open>
  C2: the gap between the last request of one call and the first request of the next
  is at least \<open>MIN_DELAY_MS\<close>. The code calls \<open>rateLimit\<close> once per call, before the
  retry loop, and a retry does not set \<open>lastRequestTime\<close>. Here the first call is
  answered 503 and, after its back-off, 200; its requests leave at 5000 and 7050. The
  second call starts when the first returns, at 7100: \<open>lastRequestTime\<close> is still 5000,
  so it does not wait, and its request leaves 50 ms after the one before.
\<close>

theorem retry_then_next_call_gap:
  "fetchWithRateLimit recovering charterUrl 3 startState =
     (Inr \<lparr>status = 200, body = asc ''ok'', contentType = []\<rparr>,
      \<lparr>now = 7100, lastRequestTime = 5000,
       sent = [(5000, charterUrl), (7050, charterUrl)]\<rparr>)
   \<and> map fst (sent (snd (fetchWithRateLimit recovering charterUrl 3
                           (snd (fetchWithRateLimit recovering charterUrl 3 startState)))))
       = [5000, 7050, 7100]
   \<and> 7100 - 7050 < MIN_DELAY_MS"
  by (simp add: recovering_first_call recovering_second_call MIN_DELAY_MS_def)

section \<open>Properties of the pipeline\<close>

lemma ingestLaw_existing:
  "existingProvisions w (entry_id e) = Some n \<Longrightarrow>
   ingestLaw env opts e w
     = (Returns \<lparr>entry = e, ingested = True, provision_count = n, error = None\<rparr>, w)"
  by (simp add: ingestLaw_def)

lemma ingestLaw_fresh:
  assumes "existingProvisions w (entry_id e) = None" "classification e = ingestable"
    and "extractProvisions env opts e w = (ps, w1)"
  shows "ingestLaw env opts e w =
     (let provs = (if length ps = 0 then [placeholder e] else ps) in
      case diskError env (SeedPath (entry_id e)) of
        Some msg \<Rightarrow> (Throws (Error msg), w1)
      | None \<Rightarrow>
          (Returns \<lparr>entry = e, ingested = True, provision_count = length provs, error = None\<rparr>,
           w1\<lparr>seedFiles := (seedFiles w1)(entry_id e \<mapsto> Doc (buildSeed env e provs w1))\<rparr>))"
  using assms by (simp add: ingestLaw_def extractProvisions_def Let_def split: if_splits)

lemma fetchAndParse_short:
  assumes "fetchPravoLawText env (nd e) w = (Inr res, w1)" "status res \<noteq> 200 \<or> length (body res) \<le> 100"
  shows "fetchAndParse env e w = ([], w1)"
  using assms by (auto simp: fetchAndParse_def)

lemma fetchAndParse_failed:
  assumes "fetchPravoLawText env (nd e) w = (Inl err, w1)"
  shows "fetchAndParse env e w = ([], w1)"
  using assms by (simp add: fetchAndParse_def)

lemma sameDisk_refl: "sameDisk w w"
  by (simp add: sameDisk_def)

lemma sameDisk_trans: "sameDisk a b \<Longrightarrow> sameDisk b c \<Longrightarrow> sameDisk a c"
  by (simp add: sameDisk_def)

lemma sameDisk_sleep: "sameDisk w (sleep ms w)"
  by (simp add: sameDisk_def sleep_def)

lemma sameDisk_sendRequest: "sameDisk w (snd (sendRequest env url w))"
  by (simp add: sameDisk_def sendRequest_def sleep_def Let_def)

lemma sameDisk_rateLimit: "sameDisk w (rateLimit w)"
  by (simp add: sameDisk_def rateLimit_def sleep_def Let_def)

lemma sameDisk_fetchLoop: "sameDisk w (snd (fetchLoop env url m a w))"
proof (induction env url m a w rule: fetchLoop.induct)
  case (1 env url maxRetries attempt s)
  obtain out s1 where sr: "sendRequest env url s = (out, s1)" by (cases "sendRequest env url s")
  have d1: "sameDisk s s1" using sameDisk_sendRequest [of s env url] sr by simp
  have step: "\<And>ms. attempt \<le> maxRetries \<Longrightarrow>
      sameDisk (sleep ms s1) (snd (fetchLoop env url maxRetries (attempt + 1) (sleep ms s1))) \<Longrightarrow>
      sameDisk s (snd (fetchLoop env url maxRetries (attempt + 1) (sleep ms s1)))"
    using d1 sameDisk_sleep sameDisk_trans by blast
  show ?case
  proof (cases "attempt \<le> maxRetries")
    case False
    then show ?thesis
      unfolding fetchLoop.simps [of env url maxRetries attempt s] by (simp add: sameDisk_refl)
  next
    case True
    show ?thesis
    proof (cases out)
      case (Responded st ctype rd)
      show ?thesis
      proof (cases "(st = 429 \<or> 500 \<le> st) \<and> attempt < maxRetries")
        case retry: True
        have "sameDisk (sleep (2 ^ nat (attempt + 1) * 1000) s1)
                (snd (fetchLoop env url maxRetries (attempt + 1) (sleep (2 ^ nat (attempt + 1) * 1000) s1)))"
          using "1.IH"(1) [OF True sr [symmetric] Responded retry] by simp
        from step [OF True this] show ?thesis
          unfolding fetchLoop.simps [of env url maxRetries attempt s]
          using True sr Responded retry by simp
      next
        case noretry: False
        show ?thesis
        proof (cases rd)
          case (BodyBytes bytes)
          then show ?thesis
            unfolding fetchLoop.simps [of env url maxRetries attempt s]
            using True sr Responded noretry d1 by auto
        next
          case (BodyFails msg)
          show ?thesis
          proof (cases "attempt < maxRetries")
            case lt: True
            have "sameDisk (sleep (2 ^ nat (attempt + 1) * 2000) s1)
                (snd (fetchLoop env url maxRetries (attempt + 1) (sleep (2 ^ nat (attempt + 1) * 2000) s1)))"
              using "1.IH"(2) [OF True sr [symmetric] Responded noretry BodyFails lt] by simp
            from step [OF True this] show ?thesis
              unfolding fetchLoop.simps [of env url maxRetries attempt s]
              using True sr Responded noretry BodyFails lt by auto
          next
            case False
            then show ?thesis
              unfolding fetchLoop.simps [of env url maxRetries attempt s]
              using True sr Responded noretry BodyFails d1 by auto
          qed
        qed
      qed
    next
      case (Rejected msg)
      show ?thesis
      proof (cases "attempt < maxRetries")
        case lt: True
        have "sameDisk (sleep (2 ^ nat (attempt + 1) * 2000) s1)
            (snd (fetchLoop env url maxRetries (attempt + 1) (sleep (2 ^ nat (attempt + 1) * 2000) s1)))"
          using "1.IH"(3) [OF True sr [symmetric] Rejected lt] by simp
        from step [OF True this] show ?thesis
          unfolding fetchLoop.simps [of env url maxRetries attempt s]
          using True sr Rejected lt by simp
      next
        case False
        then show ?thesis
          unfolding fetchLoop.simps [of env url maxRetries attempt s]
          using True sr Rejected d1 by simp
      qed
    qed
  qed
qed

lemma sameDisk_fetchPravoLawText: "sameDisk w (snd (fetchPravoLawText env n w))"
  unfolding fetchPravoLawText_def fetchWithRateLimit_def
  using sameDisk_rateLimit sameDisk_fetchLoop sameDisk_trans by blast

lemma sameDisk_fetchAndParse: "sameDisk w (snd (fetchAndParse env e w))"
proof -
  obtain res w1 where f: "fetchPravoLawText env (nd e) w = (res, w1)"
    by (cases "fetchPravoLawText env (nd e) w")
  have "sameDisk w w1" using sameDisk_fetchPravoLawText [of w env "nd e"] f by simp
  then show ?thesis
    using f by (auto simp: fetchAndParse_def split: sum.splits)
qed

lemma sameDisk_extractProvisions: "sameDisk w (snd (extractProvisions env opts e w))"
  by (simp add: extractProvisions_def sameDisk_fetchAndParse sameDisk_refl)

lemma existingProvisions_cong:
  "seedFiles w' = seedFiles w \<Longrightarrow> existingProvisions w' i = existingProvisions w i"
  by (simp add: existingProvisions_def)

lemma ingestLaw_no_exit: "fst (ingestLaw env opts e w) \<noteq> ProcessExit c"
  by (auto simp: ingestLaw_def Let_def split: option.splits prod.splits)

text \<open>The three ways \<open>ingestLaw\<close> ends on an ingestable entry.\<close>

lemma ingestLaw_cases:
  assumes "classification e = ingestable"
  obtains
    (skipped) n where "existingProvisions w (entry_id e) = Some n"
      "ingestLaw env opts e w
         = (Returns \<lparr>entry = e, ingested = True, provision_count = n, error = None\<rparr>, w)"
  | (written) ps w1 provs where "existingProvisions w (entry_id e) = None"
      "extractProvisions env opts e w = (ps, w1)" "sameDisk w w1"
      "provs = (if length ps = 0 then [placeholder e] else ps)"
      "diskError env (SeedPath (entry_id e)) = None"
      "ingestLaw env opts e w
         = (Returns \<lparr>entry = e, ingested = True, provision_count = length provs, error = None\<rparr>,
            w1\<lparr>seedFiles := (seedFiles w1)(entry_id e \<mapsto> Doc (buildSeed env e provs w1))\<rparr>)"
  | (refused) ps w1 msg where "existingProvisions w (entry_id e) = None"
      "extractProvisions env opts e w = (ps, w1)" "sameDisk w w1"
      "diskError env (SeedPath (entry_id e)) = Some msg"
      "ingestLaw env opts e w = (Throws (Error msg), w1)"
proof (cases "existingProvisions w (entry_id e)")
  case (Some n)
  then show ?thesis using skipped ingestLaw_existing by blast
next
  case None
  obtain ps w1 where f: "extractProvisions env opts e w = (ps, w1)" by (cases "extractProvisions env opts e w")
  have d: "sameDisk w w1" using sameDisk_extractProvisions [of w env opts e] f by simp
  show ?thesis
  proof (cases "diskError env (SeedPath (entry_id e))")
    case ok: None
    show ?thesis
      using written [OF None f d refl ok] ingestLaw_fresh [OF None assms f] ok
      by (simp add: Let_def)
  next
    case (Some msg)
    show ?thesis
      using refused [OF None f d Some] ingestLaw_fresh [OF None assms f] Some
      by (simp add: Let_def)
  qed
qed

lemma buildSeed_provisions: "seed_provisions (buildSeed env e provs w) = provs"
  by (simp add: buildSeed_def)

text \<open>One iteration of the loop, on an ingestable entry.\<close>

lemma processEntry_step:
  assumes "classification e = ingestable"
  shows "\<exists>res w'. processEntry env opts (r, w) e
           = (r\<lparr>results := results r @ [res],
                successCount := successCount r + (if usable env w e then 1 else 0),
                failCount := failCount r + (if usable env w e then 0 else 1),
                totalProvisions := totalProvisions r + provision_count res\<rparr>, w')
         \<and> entry res = e \<and> ingested res = usable env w e
         \<and> (\<forall>x. usable env w' x = usable env w x)
         \<and> (\<forall>i n. existingProvisions w i = Some n \<longrightarrow> existingProvisions w' i = Some n)
         \<and> (usable env w e \<longrightarrow> existingProvisions w' (entry_id e) \<noteq> None)
         \<and> (existingProvisions w (entry_id e) \<noteq> None \<longrightarrow> w' = w)
         \<and> censusFile w' = censusFile w \<and> euRefFile w' = euRefFile w
         \<and> dataDirExists w' = dataDirExists w \<and> seedDirExists w' = seedDirExists w"
proof (rule ingestLaw_cases [OF assms, of w env opts], goal_cases)
  case skipped: (1 n)
  show ?thesis
    apply (rule exI [of _ "\<lparr>entry = e, ingested = True, provision_count = n, error = None\<rparr>"])
    apply (rule exI [of _ w])
    using skipped by (simp add: processEntry_def usable_def)
next
  case written: (2 ps w1 provs)
  have len: "0 < length provs" using written(4) by auto
  let ?w' = "w1\<lparr>seedFiles := (seedFiles w1)(entry_id e \<mapsto> Doc (buildSeed env e provs w1))\<rparr>"
  have sf: "seedFiles w1 = seedFiles w" using written(3) by (simp add: sameDisk_def)
  have ex: "\<And>i. existingProvisions ?w' i
              = (if i = entry_id e then Some (length provs) else existingProvisions w i)"
    using len sf by (simp add: existingProvisions_def buildSeed_provisions)
  have u: "usable env w e" using written(5) by (simp add: usable_def)
  have inv: "\<forall>x. usable env ?w' x = usable env w x"
    using written(5) by (auto simp: usable_def ex)
  have mono: "\<forall>i n. existingProvisions w i = Some n \<longrightarrow> existingProvisions ?w' i = Some n"
    using written(1) by (auto simp: ex)
  have fr: "censusFile ?w' = censusFile w \<and> euRefFile ?w' = euRefFile w
         \<and> dataDirExists ?w' = dataDirExists w \<and> seedDirExists ?w' = seedDirExists w"
    using written(3) by (simp add: sameDisk_def)
  have pe: "processEntry env opts (r, w) e
           = (r\<lparr>results := results r @ [\<lparr>entry = e, ingested = True,
                     provision_count = length provs, error = None\<rparr>],
                successCount := successCount r + 1,
                totalProvisions := totalProvisions r + length provs\<rparr>, ?w')"
    using written(6) by (simp add: processEntry_def)
  show ?thesis
    apply (rule exI [of _ "\<lparr>entry = e, ingested = True, provision_count = length provs, error = None\<rparr>"])
    apply (rule exI [of _ ?w'])
    using pe u inv mono fr written(1) ex by simp
next
  case refused: (3 ps w1 msg)
  have sf: "seedFiles w1 = seedFiles w" using refused(3) by (simp add: sameDisk_def)
  have ex: "\<And>i. existingProvisions w1 i = existingProvisions w i"
    using sf by (rule existingProvisions_cong)
  have u: "\<not> usable env w e" using refused(1) refused(4) by (simp add: usable_def)
  have fr: "censusFile w1 = censusFile w \<and> euRefFile w1 = euRefFile w
         \<and> dataDirExists w1 = dataDirExists w \<and> seedDirExists w1 = seedDirExists w"
    using refused(3) by (simp add: sameDisk_def)
  have pe: "processEntry env opts (r, w) e
           = (r\<lparr>results := results r @ [\<lparr>entry = e, ingested = False,
                     provision_count = 0, error = Some msg\<rparr>],
                failCount := failCount r + 1\<rparr>, w1)"
    using refused(5) by (simp add: processEntry_def errorMessage_def)
  show ?thesis
    apply (rule exI [of _ "\<lparr>entry = e, ingested = False, provision_count = 0, error = Some msg\<rparr>"])
    apply (rule exI [of _ w1])
    using pe u fr refused(1) by (simp add: usable_def ex)
qed


lemma toProcess_ingestable: "e \<in> set (toProcess opts census) \<Longrightarrow> classification e = ingestable"
  by (auto simp: toProcess_def Let_def dest: in_set_takeD split: if_splits)

lemma countWhere_Cons: "countWhere P (x # xs) = (if P x then 1 else 0) + countWhere P xs"
  by (simp add: countWhere_def)

text \<open>The whole loop over the entries to process.\<close>

lemma loop_run:
  assumes "\<forall>e\<in>set todo. classification e = ingestable"
  shows "\<exists>r' w'. foldl (processEntry env opts) (r, w) todo = (r', w')
     \<and> successCount r' = successCount r + countWhere (usable env w) todo
     \<and> failCount r' = failCount r + countWhere (\<lambda>e. \<not> usable env w e) todo
     \<and> map entry (results r') = map entry (results r) @ todo
     \<and> map ingested (results r') = map ingested (results r) @ map (usable env w) todo
     \<and> (\<forall>x. usable env w' x = usable env w x)
     \<and> (\<forall>i n. existingProvisions w i = Some n \<longrightarrow> existingProvisions w' i = Some n)
     \<and> (\<forall>e\<in>set todo. usable env w e \<longrightarrow> existingProvisions w' (entry_id e) \<noteq> None)
     \<and> ((\<forall>e\<in>set todo. existingProvisions w (entry_id e) \<noteq> None) \<longrightarrow> w' = w)
     \<and> censusFile w' = censusFile w \<and> euRefFile w' = euRefFile w
     \<and> dataDirExists w' = dataDirExists w \<and> seedDirExists w' = seedDirExists w"
  using assms
proof (induction todo arbitrary: r w)
  case Nil
  then show ?case by (simp add: countWhere_def)
next
  case (Cons e todo)
  have ing: "classification e = ingestable" using Cons.prems by simp
  from processEntry_step [OF ing, of env opts r w] obtain res w1 where
    st: "processEntry env opts (r, w) e
           = (r\<lparr>results := results r @ [res],
                successCount := successCount r + (if usable env w e then 1 else 0),
                failCount := failCount r + (if usable env w e then 0 else 1),
                totalProvisions := totalProvisions r + provision_count res\<rparr>, w1)"
    and res: "entry res = e" "ingested res = usable env w e"
    and inv: "\<forall>x. usable env w1 x = usable env w x"
    and mono: "\<forall>i n. existingProvisions w i = Some n \<longrightarrow> existingProvisions w1 i = Some n"
    and now_ok: "usable env w e \<longrightarrow> existingProvisions w1 (entry_id e) \<noteq> None"
    and same: "existingProvisions w (entry_id e) \<noteq> None \<longrightarrow> w1 = w"
    and fr: "censusFile w1 = censusFile w" "euRefFile w1 = euRefFile w"
       "dataDirExists w1 = dataDirExists w" "seedDirExists w1 = seedDirExists w"
    by blast
  let ?r1 = "r\<lparr>results := results r @ [res],
                successCount := successCount r + (if usable env w e then 1 else 0),
                failCount := failCount r + (if usable env w e then 0 else 1),
                totalProvisions := totalProvisions r + provision_count res\<rparr>"
  have rest: "\<forall>e\<in>set todo. classification e = ingestable" using Cons.prems by simp
  from Cons.IH [OF rest, of ?r1 w1] obtain r' w' where
    ih: "foldl (processEntry env opts) (?r1, w1) todo = (r', w')"
      "successCount r' = successCount ?r1 + countWhere (usable env w1) todo"
      "failCount r' = failCount ?r1 + countWhere (\<lambda>e. \<not> usable env w1 e) todo"
      "map entry (results r') = map entry (results ?r1) @ todo"
      "map ingested (results r') = map ingested (results ?r1) @ map (usable env w1) todo"
      "\<forall>x. usable env w' x = usable env w1 x"
      "\<forall>i n. existingProvisions w1 i = Some n \<longrightarrow> existingProvisions w' i = Some n"
      "\<forall>e\<in>set todo. usable env w1 e \<longrightarrow> existingProvisions w' (entry_id e) \<noteq> None"
      "(\<forall>e\<in>set todo. existingProvisions w1 (entry_id e) \<noteq> None) \<longrightarrow> w' = w1"
      "censusFile w' = censusFile w1" "euRefFile w' = euRefFile w1"
      "dataDirExists w' = dataDirExists w1" "seedDirExists w' = seedDirExists w1"
    by blast
  have u1: "usable env w1 = usable env w" using inv by auto
  have c1: "foldl (processEntry env opts) (r, w) (e # todo) = (r', w')"
    using st ih(1) by simp
  have c2: "successCount r' = successCount r + countWhere (usable env w) (e # todo)"
    using ih(2) by (simp add: u1 countWhere_Cons)
  have c3: "failCount r' = failCount r + countWhere (\<lambda>e. \<not> usable env w e) (e # todo)"
    using ih(3) by (simp add: u1 countWhere_Cons)
  have c4: "map entry (results r') = map entry (results r) @ e # todo"
    using ih(4) res(1) by simp
  have c5: "map ingested (results r') = map ingested (results r) @ map (usable env w) (e # todo)"
    using ih(5) res(2) by (simp add: u1)
  have c6: "\<forall>x. usable env w' x = usable env w x" using ih(6) inv by simp
  have c7: "\<forall>i n. existingProvisions w i = Some n \<longrightarrow> existingProvisions w' i = Some n"
    using mono ih(7) by blast
  have c8: "\<forall>x\<in>set (e # todo). usable env w x \<longrightarrow> existingProvisions w' (entry_id x) \<noteq> None"
  proof
    fix x assume x: "x \<in> set (e # todo)"
    show "usable env w x \<longrightarrow> existingProvisions w' (entry_id x) \<noteq> None"
    proof
      assume ux: "usable env w x"
      show "existingProvisions w' (entry_id x) \<noteq> None"
      proof (cases "x \<in> set todo")
        case True
        then show ?thesis using ih(8) ux by (simp add: u1)
      next
        case False
        then have "x = e" using x by simp
        then obtain n where "existingProvisions w1 (entry_id x) = Some n" using now_ok ux by auto
        then show ?thesis using ih(7) by auto
      qed
    qed
  qed
  have c9: "(\<forall>x\<in>set (e # todo). existingProvisions w (entry_id x) \<noteq> None) \<longrightarrow> w' = w"
  proof
    assume a: "\<forall>x\<in>set (e # todo). existingProvisions w (entry_id x) \<noteq> None"
    then have "w1 = w" using same by simp
    then show "w' = w" using ih(9) a by simp
  qed
  have c10: "censusFile w' = censusFile w \<and> euRefFile w' = euRefFile w
     \<and> dataDirExists w' = dataDirExists w \<and> seedDirExists w' = seedDirExists w"
    using ih(10-13) fr by simp
  show ?case using c1 c2 c3 c4 c5 c6 c7 c8 c9 c10 by blast
qed

text \<open>How the census phase ends.\<close>

lemma runCensus_cases:
  "(\<not> allPresent catalog \<and> runCensus env catalog w = (ProcessExit 1, w))
   \<or> (allPresent catalog \<and> (\<exists>e w1. runCensus env catalog w = (Throws e, w1)
        \<and> sent w1 = sent w \<and> seedFiles w1 = seedFiles w)
        \<and> (diskError env DataDir \<noteq> None \<or> diskError env CensusPath \<noteq> None))
   \<or> (allPresent catalog \<and> (\<exists>w1. runCensus env catalog w = (Returns catalog, w1)
        \<and> censusFile w1 \<noteq> None \<and> sent w1 = sent w \<and> seedFiles w1 = seedFiles w
        \<and> seedDirExists w1 = seedDirExists w))"
  by (auto simp: runCensus_def mkdirSync_def Let_def split: option.splits)

lemma writeEuReferences_cases:
  "(\<exists>e. writeEuReferences env census w = (Throws e, w) \<and> diskError env EuRefPath \<noteq> None)
   \<or> (\<exists>w'. writeEuReferences env census w = (Returns (), w') \<and> censusFile w' = censusFile w
         \<and> seedFiles w' = seedFiles w \<and> sent w' = sent w)"
  by (auto simp: writeEuReferences_def Let_def split: option.splits)

text \<open>How the ingestion phase ends, once \<open>census.json\<close> is there.\<close>

lemma runIngestion_cases:
  assumes "censusFile w \<noteq> None"
  shows "(\<exists>e w'. runIngestion env opts census w = (Throws e, w')
           \<and> (diskError env SeedDir \<noteq> None \<or> diskError env EuRefPath \<noteq> None
               \<or> diskError env CensusRead \<noteq> None \<or> diskError env CensusRewrite \<noteq> None))
       \<or> (\<exists>r wa wb w'. runIngestion env opts census w = (Returns r, w')
           \<and> diskError env CensusRead = None \<and> diskError env CensusRewrite = None
           \<and> seedFiles wa = seedFiles w \<and> sent wa = sent w
           \<and> foldl (processEntry env opts) (emptyReport, wa) (toProcess opts census) = (r, wb)
           \<and> seedFiles w' = seedFiles wb \<and> sent w' = sent wb)"
proof -
  define m where "m = (if \<not> seedDirExists w then mkdirSync env SeedDir w else (Returns (), w))"
  show ?thesis
  proof (cases "fst m")
    case (Throws e)
    then have "diskError env SeedDir \<noteq> None"
      by (auto simp: m_def mkdirSync_def split: if_splits option.splits)
    moreover have "runIngestion env opts census w = (Throws e, snd m)"
      using Throws by (cases m) (simp add: runIngestion_def m_def [symmetric])
    ultimately show ?thesis by blast
  next
    case (ProcessExit c)
    then show ?thesis
      by (auto simp: m_def mkdirSync_def split: if_splits option.splits)
  next
    case (Returns u)
    define wa where "wa = snd m"
    have m: "m = (Returns (), wa)" using Returns by (cases m) (simp add: wa_def)
    have wa: "seedFiles wa = seedFiles w" "sent wa = sent w" "censusFile wa = censusFile w"
      using m by (auto simp: m_def mkdirSync_def split: if_splits option.splits)
    have ing: "\<forall>e\<in>set (toProcess opts census). classification e = ingestable"
      using toProcess_ingestable by blast
    from loop_run [OF ing, of env opts emptyReport wa] obtain r wb where
      lp: "foldl (processEntry env opts) (emptyReport, wa) (toProcess opts census) = (r, wb)"
      and cf: "censusFile wb = censusFile wa"
      by blast
    from assms wa(3) cf obtain cj where cj: "censusFile wb = Some cj" by auto
    have start: "runIngestion env opts census w =
       (case writeEuReferences env census wb of
                (Throws e, w2) \<Rightarrow> (Throws e, w2)
              | (ProcessExit c, w2) \<Rightarrow> (ProcessExit c, w2)
              | (Returns u2, w2) \<Rightarrow>
                  (case diskError env CensusRead of
                     Some msg \<Rightarrow> (Throws (Error msg), w2)
                   | None \<Rightarrow>
                       (case censusFile w2 of
                          None \<Rightarrow> (Throws (Error (asc ''ENOENT'')), w2)
                        | Some cj \<Rightarrow>
                            (case diskError env CensusRewrite of
                               Some msg \<Rightarrow> (Throws (Error msg), w2)
                             | None \<Rightarrow>
                                 (Returns r,
                                  w2\<lparr>censusFile :=
                                       Some (cj\<lparr>ingestion :=
                                         Some \<lparr>completed_at = isoDateTime env (now w2),
                                               total_processed = length (toProcess opts census),
                                               success_count = successCount r,
                                               fail_count = failCount r,
                                               total_provisions = totalProvisions r,
                                               coverage_pct =
                                                 percent1 env (successCount r)
                                                   (length (toProcess opts census))\<rparr>\<rparr>)\<rparr>)))))"
      using m lp by (simp add: runIngestion_def m_def [symmetric] Let_def)
    from writeEuReferences_cases [of env census wb] show ?thesis
    proof
      assume "\<exists>e. writeEuReferences env census wb = (Throws e, wb) \<and> diskError env EuRefPath \<noteq> None"
      then show ?thesis using start by auto
    next
      assume "\<exists>w'. writeEuReferences env census wb = (Returns (), w') \<and> censusFile w' = censusFile wb
         \<and> seedFiles w' = seedFiles wb \<and> sent w' = sent wb"
      then obtain w2 where w2: "writeEuReferences env census wb = (Returns (), w2)"
        "censusFile w2 = censusFile wb" "seedFiles w2 = seedFiles wb" "sent w2 = sent wb"
        by blast
      show ?thesis
      proof (cases "diskError env CensusRead")
        case (Some msg)
        then show ?thesis using start w2 by simp
      next
        case unrefused: None
        show ?thesis
        proof (cases "diskError env CensusRewrite")
          case (Some msg)
          then show ?thesis using start w2 cj unrefused by simp
        next
          case None
          let ?w' = "w2\<lparr>censusFile :=
                                    Some (cj\<lparr>ingestion :=
                                      Some \<lparr>completed_at = isoDateTime env (now w2),
                                            total_processed = length (toProcess opts census),
                                            success_count = successCount r,
                                            fail_count = failCount r,
                                            total_provisions = totalProvisions r,
                                            coverage_pct =
                                              percent1 env (successCount r)
                                                (length (toProcess opts census))\<rparr>\<rparr>)\<rparr>"
          have "runIngestion env opts census w = (Returns r, ?w')"
            using start w2 cj unrefused None by simp
          moreover have "seedFiles ?w' = seedFiles wb" "sent ?w' = sent wb"
            using w2 by simp_all
          ultimately show ?thesis using wa lp unrefused None by blast
        qed
      qed
    qed
  qed
qed

lemma main_validation:
  "\<not> allPresent catalog \<Longrightarrow> main env opts catalog w = (ValidationExit 1, w)"
  using runCensus_cases [of catalog env w] by (auto simp: main_def)

lemma main_ends:
  "(\<not> allPresent catalog \<and> main env opts catalog w = (ValidationExit 1, w))
   \<or> (allPresent catalog \<and> (\<exists>e w'. main env opts catalog w = (FatalExit e, w'))
        \<and> (diskError env DataDir \<noteq> None \<or> diskError env CensusPath \<noteq> None
            \<or> diskError env SeedDir \<noteq> None \<or> diskError env EuRefPath \<noteq> None
            \<or> diskError env CensusRead \<noteq> None \<or> diskError env CensusRewrite \<noteq> None))
   \<or> (allPresent catalog \<and> censusOnly opts \<and> (\<exists>w'. main env opts catalog w = (Done None, w')
        \<and> sent w' = sent w \<and> seedFiles w' = seedFiles w))
   \<or> (allPresent catalog \<and> \<not> censusOnly opts
        \<and> (\<exists>r wa wb w'. main env opts catalog w = (Done (Some r), w')
           \<and> diskError env CensusRead = None \<and> diskError env CensusRewrite = None
           \<and> seedFiles wa = seedFiles w \<and> sent wa = sent w
           \<and> foldl (processEntry env opts) (emptyReport, wa) (toProcess opts catalog) = (r, wb)
           \<and> seedFiles w' = seedFiles wb \<and> sent w' = sent wb))"
proof -
  from runCensus_cases [of catalog env w] consider
      (invalid) "\<not> allPresent catalog" "runCensus env catalog w = (ProcessExit 1, w)"
    | (thrown) e w1 where "allPresent catalog" "runCensus env catalog w = (Throws e, w1)"
        "diskError env DataDir \<noteq> None \<or> diskError env CensusPath \<noteq> None"
    | (returned) w1 where "allPresent catalog" "runCensus env catalog w = (Returns catalog, w1)"
        "censusFile w1 \<noteq> None" "sent w1 = sent w" "seedFiles w1 = seedFiles w"
    by blast
  then show ?thesis
  proof cases
    case invalid
    then show ?thesis by (simp add: main_def)
  next
    case thrown
    then show ?thesis by (auto simp: main_def)
  next
    case a: returned
    show ?thesis
    proof (cases "censusOnly opts")
      case True
      then show ?thesis using a by (simp add: main_def)
    next
      case False
      from runIngestion_cases [OF a(3), of env opts catalog] consider
          (failed) e w' where "runIngestion env opts catalog w1 = (Throws e, w')"
            "diskError env SeedDir \<noteq> None \<or> diskError env EuRefPath \<noteq> None
               \<or> diskError env CensusRead \<noteq> None \<or> diskError env CensusRewrite \<noteq> None"
        | (finished) r wa wb w' where "runIngestion env opts catalog w1 = (Returns r, w')"
            "diskError env CensusRead = None" "diskError env CensusRewrite = None"
            "seedFiles wa = seedFiles w1" "sent wa = sent w1"
            "foldl (processEntry env opts) (emptyReport, wa) (toProcess opts catalog) = (r, wb)"
            "seedFiles w' = seedFiles wb" "sent w' = sent wb"
        by blast
      then show ?thesis
      proof cases
        case failed
        then show ?thesis using a False by (auto simp: main_def)
      next
        case b: finished
        have "main env opts catalog w = (Done (Some r), w')"
          using a False b(1) by (simp add: main_def)
        moreover have "seedFiles wa = seedFiles w" "sent wa = sent w" using a b by simp_all
        ultimately show ?thesis using a(1) False b(2,3,6-8) by blast
      qed
    qed
  qed
qed

lemma main_done:
  assumes "main env opts catalog w = (Done (Some r), w')"
  shows "\<exists>wa wb. seedFiles wa = seedFiles w \<and> sent wa = sent w
           \<and> foldl (processEntry env opts) (emptyReport, wa) (toProcess opts catalog) = (r, wb)
           \<and> seedFiles w' = seedFiles wb \<and> sent w' = sent wb"
  using main_ends [of catalog env opts w] assms by auto

subsection \<open>Evaluating the pipeline on concrete runs\<close>

lemmas pipeline_steps = main_def runCensus_def runIngestion_def mkdirSync_def
  writeEuReferences_def processEntry_def ingestLaw_def extractProvisions_def
  fetchAndParse_def existingProvisions_def emptyReport_def Let_def

lemma shortBody_length: "length shortBody = 40"
  by (simp add: shortBody_def asc_def)

lemma core_present: "allPresent coreCatalog"
  by (simp add: allPresent_def requiredLaws_def coreCatalog_def charter_def lawEntry_def asc_def)

lemma partial_missing:
  "asc ''uk-rf'' \<in> set requiredLaws \<and> asc ''uk-rf'' \<notin> set (map entry_id partialCatalog)"
  by (simp add: requiredLaws_def partialCatalog_def charter_def lawEntry_def asc_def)

lemma core_todo: "toProcess fullRun coreCatalog = [charter]"
  by (simp add: toProcess_def fullRun_def coreCatalog_def charter_def lawEntry_def)

lemma core_eu: "euSeeds coreCatalog = []"
  by (simp add: euSeeds_def coreCatalog_def charter_def lawEntry_def)

lemma charter_fields:
  "entry_id charter = asc ''constitution-rf''" "nd charter = asc ''102027595''"
  "classification charter = ingestable"
  by (simp_all add: charter_def lawEntry_def)

lemma fullRun_fields: "\<not> censusOnly fullRun" "\<not> skipFetch fullRun"
  by (simp_all add: fullRun_def)

lemma env_fields:
  "server stubServer = shortReply" "latency stubServer = (\<lambda>k. 50)"
  "decode1251 stubServer = (\<lambda>bytes. bytes)"
  "server refusedSeed = shortReply" "latency refusedSeed = (\<lambda>k. 50)"
  "decode1251 refusedSeed = (\<lambda>bytes. bytes)"
  "server unreadableCensus = shortReply" "latency unreadableCensus = (\<lambda>k. 50)"
  "decode1251 unreadableCensus = (\<lambda>bytes. bytes)"
  by (simp_all add: stubServer_def refusedSeed_def unreadableCensus_def serving_def)

lemma stub_disk: "diskError stubServer p = None"
  by (simp add: stubServer_def serving_def)

lemma refusedSeed_disk:
  "diskError refusedSeed (SeedPath (asc ''constitution-rf'')) = Some (asc ''EACCES'')"
  "diskError refusedSeed DataDir = None" "diskError refusedSeed SeedDir = None"
  "diskError refusedSeed CensusPath = None" "diskError refusedSeed EuRefPath = None"
  "diskError refusedSeed CensusRead = None" "diskError refusedSeed CensusRewrite = None"
  by (simp_all add: refusedSeed_def serving_def)

lemma refusedCensus_disk:
  "diskError refusedCensus CensusPath = Some (asc ''EACCES'')"
  "diskError refusedCensus DataDir = None"
  by (simp_all add: refusedCensus_def serving_def)

lemma unreadableCensus_disk:
  "diskError unreadableCensus CensusRead = Some (asc ''Unexpected end of JSON input'')"
  "diskError unreadableCensus DataDir = None" "diskError unreadableCensus SeedDir = None"
  "diskError unreadableCensus CensusPath = None" "diskError unreadableCensus EuRefPath = None"
  "diskError unreadableCensus CensusRewrite = None"
  "diskError unreadableCensus (SeedPath (asc ''constitution-rf'')) = None"
  by (simp_all add: unreadableCensus_def serving_def)

text \<open>One quick answer with status 200: the call makes one request.\<close>

lemma quick_fetch:
  fixes w :: world
  assumes "server env = shortReply" "latency env = (\<lambda>k. 50)" "decode1251 env = (\<lambda>bytes. bytes)"
  shows "fetchPravoLawText env (asc ''102027595'') w =
     (Inr \<lparr>status = 200, body = shortBody, contentType = asc ''text/plain''\<rparr>,
      sleep 50 ((rateLimit w)\<lparr>sent := sent w @ [(now (rateLimit w), charterUrl)]\<rparr>))"
proof -
  have u: "asc ''http://pravo.gov.ru/proxy/ips/?savetext=&nd='' @ asc ''102027595''
             @ asc ''&page=all'' = charterUrl"
    by (simp add: charterUrl_def asc_def)
  show ?thesis
    unfolding fetchPravoLawText_def u fetchWithRateLimit_def
      fetchLoop.simps [of env charterUrl 3 0 "rateLimit w"]
    using assms charterUrl_pravo
    by (simp add: sendRequest_def Let_def REQUEST_TIMEOUT_MS_def shortReply_def readBody_def
        sent_rateLimit)
qed

lemmas run_eval = pipeline_steps core_present core_todo core_eu charter_fields fullRun_fields
  shortBody_length freshWorld_def rateLimit_def sleep_def MIN_DELAY_MS_def errorMessage_def
  buildSeed_provisions

lemma refused_first_run:
  "fst (main refusedSeed fullRun coreCatalog freshWorld) = Done (Some refusedReport)
   \<and> map fst (sent (snd (main refusedSeed fullRun coreCatalog freshWorld))) = [5000]"
  by (simp add: run_eval refusedSeed_disk quick_fetch [OF env_fields(4-6)] refusedReport_def)


lemma stub_first_run:
  "fst (main stubServer fullRun coreCatalog freshWorld) = Done (Some placeholderReport)
   \<and> map fst (sent (snd (main stubServer fullRun coreCatalog freshWorld))) = [5000]"
  by (simp add: run_eval stub_disk quick_fetch [OF env_fields(1-3)] placeholderReport_def)


lemma refusedCensus_run:
  "main refusedCensus fullRun coreCatalog freshWorld
     = (FatalExit (Error (asc ''EACCES'')), freshWorld\<lparr>dataDirExists := True\<rparr>)"
  by (simp add: run_eval refusedCensus_disk)

text \<open>
  Every write accepted, the one entry fetched and its seed file written, and then
  \<open>census.json\<close> does not parse: the exception of \<open>JSON.parse\<close> leaves \<open>main\<close>.
\<close>

lemma unreadableCensus_run:
  "fst (main unreadableCensus fullRun coreCatalog freshWorld)
     = FatalExit (Error (asc ''Unexpected end of JSON input''))
   \<and> map fst (sent (snd (main unreadableCensus fullRun coreCatalog freshWorld))) = [5000]
   \<and> seedFiles (snd (main unreadableCensus fullRun coreCatalog freshWorld))
         (asc ''constitution-rf'') \<noteq> None"
  by (simp add: run_eval unreadableCensus_disk quick_fetch [OF env_fields(7-9)])

lemma charter_extract:
  assumes "server env = shortReply" "latency env = (\<lambda>k. 50)" "decode1251 env = (\<lambda>bytes. bytes)"
  shows "extractProvisions env fullRun charter freshWorld =
     ([], sleep 50 ((rateLimit freshWorld)
                      \<lparr>sent := sent freshWorld @ [(now (rateLimit freshWorld), charterUrl)]\<rparr>))"
  by (simp add: extractProvisions_def fetchAndParse_def fullRun_fields charter_fields
      quick_fetch [OF assms] shortBody_length)

text \<open>The ways in which nothing is extracted for an entry.\<close>

lemma nothing_extracted:
  "skipFetch opts \<Longrightarrow> extractProvisions env opts e w = ([], w)"
  "\<not> skipFetch opts \<Longrightarrow> fetchPravoLawText env (nd e) w = (Inl err, w1)
     \<Longrightarrow> extractProvisions env opts e w = ([], w1)"
  "\<not> skipFetch opts \<Longrightarrow> fetchPravoLawText env (nd e) w = (Inr res, w1)
     \<Longrightarrow> status res \<noteq> 200 \<or> length (body res) \<le> 100
     \<Longrightarrow> extractProvisions env opts e w = ([], w1)"
  "\<not> skipFetch opts \<Longrightarrow> fetchPravoLawText env (nd e) w = (Inr res, w1)
     \<Longrightarrow> \<not> includes_js (body res) (asc ''<html'')
     \<Longrightarrow> \<not> includes_js (body res) (asc ''<HTML'')
     \<Longrightarrow> parseRussianText (body res) = Inr []
     \<Longrightarrow> extractProvisions env opts e w = ([], w1)"
  by (auto simp: extractProvisions_def fetchAndParse_def)

lemma allPresent_iff:
  "allPresent catalog \<longleftrightarrow> (\<forall>req\<in>set requiredLaws. req \<in> set (map entry_id catalog))"
  by (auto simp: allPresent_def list_all_iff find_None_iff)

lemma processEntry_thrown:
  "ingestLaw env opts e w = (Throws err, w1) \<Longrightarrow>
   processEntry env opts (r, w) e =
     (r\<lparr>results := results r
            @ [\<lparr>entry = e, ingested = False, provision_count = 0,
                error = Some (errorMessage err)\<rparr>],
        failCount := failCount r + 1\<rparr>, w1)"
  by (simp add: processEntry_def)

subsection \<open>The claims about the pipeline\<close>

text \<open>
  C3, as the specification states it: an entry that yields no real content gets an
  (identifier, reason) pair in the failure list of the report and is not counted among
  the successes. In this run the only entry to process is answered with a body of 40
  code units, under the threshold of 100: the run reports it as ingested, with one
  provision and no error, counts one success and no failure, and lists no failed law.
\<close>

theorem placeholder_reported_as_success_counterexample:
  "toProcess fullRun coreCatalog = [charter]
   \<and> server stubServer 0 charterUrl
       = Responded 200 (Some (asc ''text/plain'')) (BodyBytes shortBody)
   \<and> length shortBody = 40
   \<and> fst (main stubServer fullRun coreCatalog freshWorld) =
       Done (Some \<lparr>results = [\<lparr>entry = charter, ingested = True, provision_count = 1,
                                 error = None\<rparr>],
                    successCount = 1, failCount = 0, skipCount = 0, totalProvisions = 1\<rparr>)
   \<and> failedLaws placeholderReport 1 = []"
  using stub_first_run
  by (simp add: core_todo shortBody_length placeholderReport_def failedLaws_def
      stubServer_def serving_def shortReply_def)

text \<open>
  C3, amended: for every entry processed in a run for which nothing was extracted (the
  fetch failed, the status was not 200, the body had at most 100 code units, or the
  parser produced no provision; that is, \<open>provisions\<close> is empty when the placeholder
  test is reached), a placeholder provision is synthesized. When the seed file is
  written, the entry is reported as ingested, with one provision and no error, and is
  counted among the successes used for the coverage percentage; no failure is recorded
  for it. A failure with its reason is recorded, and the failure counter incremented,
  only when the write of the seed file throws.
\<close>

theorem placeholder_counts_as_success:
  assumes "classification e = ingestable" "existingProvisions w (entry_id e) = None"
    and "extractProvisions env opts e w = ([], w1)"
  shows "processEntry env opts (r, w) e =
     (case diskError env (SeedPath (entry_id e)) of
        None \<Rightarrow>
          (r\<lparr>results := results r
                  @ [\<lparr>entry = e, ingested = True, provision_count = 1, error = None\<rparr>],
             successCount := successCount r + 1,
             totalProvisions := totalProvisions r + 1\<rparr>,
           w1\<lparr>seedFiles := (seedFiles w1)(entry_id e \<mapsto> Doc (buildSeed env e [placeholder e] w1))\<rparr>)
      | Some msg \<Rightarrow>
          (r\<lparr>results := results r
                  @ [\<lparr>entry = e, ingested = False, provision_count = 0, error = Some msg\<rparr>],
             failCount := failCount r + 1\<rparr>,
           w1))"
  using ingestLaw_fresh [OF assms(2) assms(1) assms(3)]
  by (simp add: processEntry_def errorMessage_def split: option.splits)

theorem placeholder_counts_as_success_witness:
  "classification charter = ingestable
   \<and> existingProvisions freshWorld (entry_id charter) = None
   \<and> fst (extractProvisions stubServer fullRun charter freshWorld) = []
   \<and> fst (processEntry stubServer fullRun (emptyReport, freshWorld) charter) = placeholderReport
   \<and> fst (extractProvisions refusedSeed fullRun charter freshWorld) = []
   \<and> fst (processEntry refusedSeed fullRun (emptyReport, freshWorld) charter) = refusedReport"
proof -
  have c: "classification charter = ingestable" by (simp add: charter_fields)
  have x: "existingProvisions freshWorld (entry_id charter) = None"
    by (simp add: existingProvisions_def freshWorld_def)
  have d1: "diskError stubServer (SeedPath (entry_id charter)) = None" by (rule stub_disk)
  have d2: "diskError refusedSeed (SeedPath (entry_id charter)) = Some (asc ''EACCES'')"
    by (simp add: charter_fields refusedSeed_disk)
  have p1: "fst (processEntry stubServer fullRun (emptyReport, freshWorld) charter)
              = placeholderReport"
    using placeholder_counts_as_success
        [OF c x charter_extract [OF env_fields(1-3)], of emptyReport]
    by (simp add: d1 emptyReport_def placeholderReport_def)
  have p2: "fst (processEntry refusedSeed fullRun (emptyReport, freshWorld) charter)
              = refusedReport"
    using placeholder_counts_as_success
        [OF c x charter_extract [OF env_fields(4-6)], of emptyReport]
    by (simp add: d2 emptyReport_def refusedReport_def)
  show ?thesis
    using c x p1 p2
    by (simp add: charter_extract [OF env_fields(1-3)] charter_extract [OF env_fields(4-6)])
qed






text \<open>
  C8, as the specification states it: the failure of the catalogue validation is the
  only condition that aborts the whole run. Here the catalogue has every required law,
  and the disk refuses the write of \<open>census.json\<close>: the exception leaves \<open>main\<close>, whose
  \<open>catch\<close> handler ends the process with status 1, before any request.
\<close>

theorem census_write_failure_aborts_counterexample:
  "allPresent coreCatalog
   \<and> fst (main refusedCensus fullRun coreCatalog freshWorld) = FatalExit (Error (asc ''EACCES''))
   \<and> exitCode (fst (main refusedCensus fullRun coreCatalog freshWorld)) = 1
   \<and> sent (snd (main refusedCensus fullRun coreCatalog freshWorld)) = []"
proof -
  have s: "sent (freshWorld\<lparr>dataDirExists := True\<rparr>) = []" by (simp add: freshWorld_def)
  show ?thesis
    unfolding refusedCensus_run using s by (simp add: core_present exitCode_def)
qed


text \<open>
  C8, amended: when one of the required identifiers is missing from the catalogue, the
  run ends with exit status 1 before any request and before any write (the state is
  unchanged), and the validation exit happens in no other case. The only other way in
  which a run is aborted is the fatal exit, with status 1, of the handler on \<open>main\<close>,
  and it is reached only when a disk operation of the run itself, outside the \<open>try\<close> of
  the loop, throws: creating the data or seed directory, writing \<open>census.json\<close> or the
  file of EU references, reading \<open>census.json\<close> back and parsing it at the end of the
  ingestion, or writing it again. Conversely, with a complete catalogue and without
  \<open>--census-only\<close>, a run whose final read (or parse) of \<open>census.json\<close> or whose final
  write throws always ends in that fatal exit. No failure of a single entry aborts the
  run: a run that finishes has processed every entry to process, one result each, in
  order; and an exception raised while an entry is processed is recorded as a result
  that is not ingested, with the message of the exception, and counted as a failure.
\<close>

theorem run_abort_conditions:
  "((\<exists>req\<in>set requiredLaws. req \<notin> set (map entry_id catalog))
      \<longrightarrow> main env opts catalog w = (ValidationExit 1, w) \<and> exitCode (ValidationExit 1) = 1)
   \<and> (\<forall>c. fst (main env opts catalog w) = ValidationExit c
         \<longrightarrow> c = 1 \<and> (\<exists>req\<in>set requiredLaws. req \<notin> set (map entry_id catalog)))
   \<and> (\<forall>err. fst (main env opts catalog w) = FatalExit err
         \<longrightarrow> exitCode (FatalExit err) = 1
             \<and> (diskError env DataDir \<noteq> None \<or> diskError env CensusPath \<noteq> None
                 \<or> diskError env SeedDir \<noteq> None \<or> diskError env EuRefPath \<noteq> None
                 \<or> diskError env CensusRead \<noteq> None \<or> diskError env CensusRewrite \<noteq> None))
   \<and> ((\<forall>req\<in>set requiredLaws. req \<in> set (map entry_id catalog)) \<and> \<not> censusOnly opts
        \<and> (diskError env CensusRead \<noteq> None \<or> diskError env CensusRewrite \<noteq> None)
         \<longrightarrow> (\<exists>err. fst (main env opts catalog w) = FatalExit err))
   \<and> (\<forall>r. fst (main env opts catalog w) = Done (Some r)
         \<longrightarrow> map entry (results r) = toProcess opts catalog)
   \<and> (\<forall>r e w0 err w1. ingestLaw env opts e w0 = (Throws err, w1)
         \<longrightarrow> processEntry env opts (r, w0) e =
              (r\<lparr>results := results r
                     @ [\<lparr>entry = e, ingested = False, provision_count = 0,
                         error = Some (errorMessage err)\<rparr>],
                 failCount := failCount r + 1\<rparr>, w1))"
proof -
  have a: "(\<exists>req\<in>set requiredLaws. req \<notin> set (map entry_id catalog))
      \<longrightarrow> main env opts catalog w = (ValidationExit 1, w) \<and> exitCode (ValidationExit 1) = 1"
    using main_validation [of catalog env opts w] by (auto simp: allPresent_iff exitCode_def)
  have b: "\<forall>c. fst (main env opts catalog w) = ValidationExit c
         \<longrightarrow> c = 1 \<and> (\<exists>req\<in>set requiredLaws. req \<notin> set (map entry_id catalog))"
    using main_ends [of catalog env opts w] by (auto simp: allPresent_iff)
  have c: "\<forall>err. fst (main env opts catalog w) = FatalExit err
         \<longrightarrow> exitCode (FatalExit err) = 1
             \<and> (diskError env DataDir \<noteq> None \<or> diskError env CensusPath \<noteq> None
                 \<or> diskError env SeedDir \<noteq> None \<or> diskError env EuRefPath \<noteq> None
                 \<or> diskError env CensusRead \<noteq> None \<or> diskError env CensusRewrite \<noteq> None)"
    using main_ends [of catalog env opts w] by (auto simp: exitCode_def)
  have u: "(\<forall>req\<in>set requiredLaws. req \<in> set (map entry_id catalog)) \<and> \<not> censusOnly opts
        \<and> (diskError env CensusRead \<noteq> None \<or> diskError env CensusRewrite \<noteq> None)
         \<longrightarrow> (\<exists>err. fst (main env opts catalog w) = FatalExit err)"
  proof (intro impI)
    assume h: "(\<forall>req\<in>set requiredLaws. req \<in> set (map entry_id catalog)) \<and> \<not> censusOnly opts
        \<and> (diskError env CensusRead \<noteq> None \<or> diskError env CensusRewrite \<noteq> None)"
    then have p: "allPresent catalog" by (simp add: allPresent_iff)
    from main_ends [of catalog env opts w] p h
    have "\<exists>e w'. main env opts catalog w = (FatalExit e, w')" by blast
    then show "\<exists>err. fst (main env opts catalog w) = FatalExit err" by auto
  qed
  have d: "\<forall>r. fst (main env opts catalog w) = Done (Some r)
         \<longrightarrow> map entry (results r) = toProcess opts catalog"
  proof (intro allI impI)
    fix r assume "fst (main env opts catalog w) = Done (Some r)"
    then have "main env opts catalog w = (Done (Some r), snd (main env opts catalog w))"
      by (metis prod.collapse)
    from main_done [OF this] obtain wa wb where
      lp: "foldl (processEntry env opts) (emptyReport, wa) (toProcess opts catalog) = (r, wb)"
      by blast
    have ing: "\<forall>e\<in>set (toProcess opts catalog). classification e = ingestable"
      using toProcess_ingestable by blast
    from loop_run [OF ing, of env opts emptyReport wa] lp
    show "map entry (results r) = toProcess opts catalog"
      by (auto simp: emptyReport_def)
  qed
  have e: "\<forall>r e w0 err w1. ingestLaw env opts e w0 = (Throws err, w1)
         \<longrightarrow> processEntry env opts (r, w0) e =
              (r\<lparr>results := results r
                     @ [\<lparr>entry = e, ingested = False, provision_count = 0,
                         error = Some (errorMessage err)\<rparr>],
                 failCount := failCount r + 1\<rparr>, w1)"
    using processEntry_thrown by blast
  from a b c u d e show ?thesis by (intro conjI)
qed

theorem run_abort_conditions_witness:
  "asc ''uk-rf'' \<in> set requiredLaws
   \<and> asc ''uk-rf'' \<notin> set (map entry_id partialCatalog)
   \<and> main stubServer fullRun partialCatalog freshWorld = (ValidationExit 1, freshWorld)
   \<and> fst (main refusedCensus fullRun coreCatalog freshWorld) = FatalExit (Error (asc ''EACCES''))
   \<and> diskError refusedCensus CensusPath \<noteq> None
   \<and> allPresent coreCatalog
   \<and> \<not> censusOnly fullRun
   \<and> diskError unreadableCensus CensusRead \<noteq> None
   \<and> diskError unreadableCensus DataDir = None
   \<and> diskError unreadableCensus CensusPath = None
   \<and> diskError unreadableCensus SeedDir = None
   \<and> diskError unreadableCensus EuRefPath = None
   \<and> (\<exists>err. fst (main unreadableCensus fullRun coreCatalog freshWorld) = FatalExit err)
   \<and> fst (main unreadableCensus fullRun coreCatalog freshWorld)
        = FatalExit (Error (asc ''Unexpected end of JSON input''))
   \<and> fst (main refusedSeed fullRun coreCatalog freshWorld) = Done (Some refusedReport)
   \<and> map entry (results refusedReport) = toProcess fullRun coreCatalog
   \<and> map ingested (results refusedReport) = [False]"
proof -
  have m: "\<exists>req\<in>set requiredLaws. req \<notin> set (map entry_id partialCatalog)"
    using partial_missing by blast
  have "(\<exists>req\<in>set requiredLaws. req \<notin> set (map entry_id partialCatalog))
      \<longrightarrow> main stubServer fullRun partialCatalog freshWorld = (ValidationExit 1, freshWorld)
          \<and> exitCode (ValidationExit 1) = 1"
    by (rule conjunct1 [OF run_abort_conditions])
  with m have v: "main stubServer fullRun partialCatalog freshWorld = (ValidationExit 1, freshWorld)"
    by simp
  have fe: "fst (main refusedCensus fullRun coreCatalog freshWorld) = FatalExit (Error (asc ''EACCES''))"
    by (simp add: refusedCensus_run)
  have f: "diskError refusedCensus CensusPath \<noteq> None"
    by (simp add: refusedCensus_disk)
  have cp: "\<forall>req\<in>set requiredLaws. req \<in> set (map entry_id coreCatalog)"
    using core_present by (simp only: allPresent_iff)
  have co: "\<not> censusOnly fullRun" by (rule fullRun_fields(1))
  have ur: "diskError unreadableCensus CensusRead \<noteq> None"
    by (simp add: unreadableCensus_disk)
  have "(\<forall>req\<in>set requiredLaws. req \<in> set (map entry_id coreCatalog)) \<and> \<not> censusOnly fullRun
        \<and> (diskError unreadableCensus CensusRead \<noteq> None
            \<or> diskError unreadableCensus CensusRewrite \<noteq> None)
         \<longrightarrow> (\<exists>err. fst (main unreadableCensus fullRun coreCatalog freshWorld) = FatalExit err)"
    by (rule conjunct1 [OF conjunct2 [OF conjunct2 [OF conjunct2 [OF run_abort_conditions]]]])
  with cp co ur
  have ux: "\<exists>err. fst (main unreadableCensus fullRun coreCatalog freshWorld) = FatalExit err"
    by blast
  have ue: "fst (main unreadableCensus fullRun coreCatalog freshWorld)
        = FatalExit (Error (asc ''Unexpected end of JSON input''))"
    using unreadableCensus_run by simp
  have dn: "fst (main refusedSeed fullRun coreCatalog freshWorld) = Done (Some refusedReport)"
    using refused_first_run by simp
  have "\<forall>r. fst (main refusedSeed fullRun coreCatalog freshWorld) = Done (Some r)
         \<longrightarrow> map entry (results r) = toProcess fullRun coreCatalog"
    by (rule conjunct1 [OF conjunct2 [OF conjunct2 [OF conjunct2 [OF conjunct2
          [OF run_abort_conditions]]]]])
  with dn have d: "map entry (results refusedReport) = toProcess fullRun coreCatalog"
    by simp
  have i: "map ingested (results refusedReport) = [False]"
    by (simp add: refusedReport_def)
  from partial_missing v fe f core_present co ur unreadableCensus_disk(2,4,3,5) ux ue dn d i
  show ?thesis by (intro conjI) simp_all
qed


text \<open>
  C9: for an ingestable entry that is fetched (no usable seed file exists, the network
  is not disabled) and whose fetch gives status 200 with a body of at most 100 code
  units (the threshold of the code; 40 for example), the seed file written holds
  exactly one provision, the placeholder: number and reference key \<open>0\<close>, position 0,
  the title of the entry, and as body the description of the entry (its title when it
  has none), the fixed note and its source URL.
\<close>

theorem short_body_gives_placeholder:
  assumes "classification e = ingestable" "existingProvisions w (entry_id e) = None"
    and "\<not> skipFetch opts"
    and "fetchPravoLawText env (nd e) w = (Inr res, w1)"
    and "status res = 200" "length (body res) \<le> 100"
    and "diskError env (SeedPath (entry_id e)) = None"
  shows "\<exists>doc. seedFiles (snd (ingestLaw env opts e w)) (entry_id e) = Some (Doc doc)
     \<and> seed_provisions doc =
         [\<lparr>article = asc ''0'', title = entry_title e,
           content = (case description e of None \<Rightarrow> entry_title e
                      | Some d \<Rightarrow> if d = [] then entry_title e else d)
                     @ placeholderTail @ source_url e,
           provision_ref = asc ''0'', order_index = 0\<rparr>]
     \<and> seed_id (law doc) = entry_id e"
proof -
  have f: "extractProvisions env opts e w = ([], w1)"
    using assms(3) fetchAndParse_short [OF assms(4)] assms(6) by (simp add: extractProvisions_def)
  show ?thesis
    using ingestLaw_fresh [OF assms(2) assms(1) f] assms(7)
    by (simp add: placeholder_def buildSeed_def)
qed

theorem short_body_gives_placeholder_witness:
  "classification charter = ingestable
   \<and> existingProvisions freshWorld (entry_id charter) = None
   \<and> fst (fetchPravoLawText stubServer (nd charter) freshWorld)
       = Inr \<lparr>status = 200, body = shortBody, contentType = asc ''text/plain''\<rparr>
   \<and> length shortBody = 40
   \<and> (\<exists>doc. seedFiles (snd (ingestLaw stubServer fullRun charter freshWorld))
               (asc ''constitution-rf'') = Some (Doc doc)
          \<and> seed_provisions doc =
              [\<lparr>article = asc ''0'', title = asc ''Law'',
                content = asc ''Law'' @ placeholderTail
                          @ asc ''http://pravo.gov.ru/proxy/ips/?docbody=&nd=102027595'',
                provision_ref = asc ''0'', order_index = 0\<rparr>])"
proof -
  have c: "classification charter = ingestable" by (simp add: charter_fields)
  have x: "existingProvisions freshWorld (entry_id charter) = None"
    by (simp add: existingProvisions_def freshWorld_def)
  have n: "\<not> skipFetch fullRun" by (simp add: fullRun_fields)
  have q: "fetchPravoLawText stubServer (nd charter) freshWorld =
     (Inr \<lparr>status = 200, body = shortBody, contentType = asc ''text/plain''\<rparr>,
      sleep 50 ((rateLimit freshWorld)
                  \<lparr>sent := sent freshWorld @ [(now (rateLimit freshWorld), charterUrl)]\<rparr>))"
    using quick_fetch [OF env_fields(1-3), of freshWorld] by (simp add: charter_fields)
  have s: "status \<lparr>status = 200, body = shortBody, contentType = asc ''text/plain''\<rparr> = 200"
    by simp
  have l: "length (body \<lparr>status = 200, body = shortBody, contentType = asc ''text/plain''\<rparr>) \<le> 100"
    by (simp add: shortBody_length)
  have d: "diskError stubServer (SeedPath (entry_id charter)) = None" by (rule stub_disk)
  have t: "entry_title charter = asc ''Law''" "description charter = None"
    "source_url charter = asc ''http://pravo.gov.ru/proxy/ips/?docbody=&nd=102027595''"
    by (simp_all add: charter_def lawEntry_def asc_def)
  from short_body_gives_placeholder [OF c x n q s l d]
  have "\<exists>doc. seedFiles (snd (ingestLaw stubServer fullRun charter freshWorld))
               (asc ''constitution-rf'') = Some (Doc doc)
          \<and> seed_provisions doc =
              [\<lparr>article = asc ''0'', title = asc ''Law'',
                content = asc ''Law'' @ placeholderTail
                          @ asc ''http://pravo.gov.ru/proxy/ips/?docbody=&nd=102027595'',
                provision_ref = asc ''0'', order_index = 0\<rparr>]"
    unfolding t charter_fields by auto
  then show ?thesis
    using c x q shortBody_length by simp
qed

end
